theory Spec2Isabelle
  imports Complex_Main "HOL-Library.AList"
begin

section \<open>Objects and the members they inherit\<close>

text \<open>
  A dictionary of the program is a plain object, written \<open>{}\<close> or made by \<open>JSON.parse\<close>.
  Reading \<open>object[key]\<close> and testing \<open>key in object\<close> find the entries the object holds
  itself and, for a key it does not hold, the members of \<open>Object.prototype\<close>: eleven
  built-in functions and the accessor \<open>__proto__\<close>, whose value is \<open>Object.prototype\<close>
  itself. Such a member is a function, the prototype object, the number \<open>NaN\<close> or a
  string (the last two only once the program has written to \<open>Object.prototype\<close>, see
  \<open>updateToolStats\<close>).
\<close>

datatype inherited = Function string | PrototypeObject | NotANumber | Text string

datatype 'a property = Own 'a | Inherited inherited | Undefined

datatype js_error = Error string | TypeError string

definition Object_prototype_methods :: "string list" where
  "Object_prototype_methods =
     [''__defineGetter__'', ''__defineSetter__'', ''hasOwnProperty'', ''__lookupGetter__'',
      ''__lookupSetter__'', ''isPrototypeOf'', ''propertyIsEnumerable'', ''toString'',
      ''valueOf'', ''toLocaleString'']"

definition Object_prototype_names :: "string list" where
  "Object_prototype_names = ''constructor'' # ''__proto__'' # Object_prototype_methods"

text \<open>
  What the program has added to \<open>Object.prototype\<close>, if anything: the statistics fields
  that \<open>updateToolStats\<close> writes through the name \<open>__proto__\<close>. The numeric ones become
  \<open>NaN\<close>, \<open>last_used\<close> the timestamp of the invocation, and of \<open>success_count\<close> and
  \<open>error_count\<close> the ones that were incremented.
\<close>

record prototypeWrites =
  written_last_used :: string
  written_success_count :: bool
  written_error_count :: bool

definition inheritedMember :: "prototypeWrites option \<Rightarrow> string \<Rightarrow> inherited option" where
  "inheritedMember proto key =
     (if key = ''constructor'' then Some (Function ''Object'')
      else if key = ''__proto__'' then Some PrototypeObject
      else if key \<in> set Object_prototype_methods then Some (Function key)
      else
        (case proto of
           None \<Rightarrow> None
         | Some w \<Rightarrow>
             (if key \<in> set [''call_count'', ''total_duration_ms'', ''avg_duration_ms'']
              then Some NotANumber
              else if key = ''last_used'' then Some (Text (written_last_used w))
              else if key = ''success_count'' \<and> written_success_count w then Some NotANumber
              else if key = ''error_count'' \<and> written_error_count w then Some NotANumber
              else None)))"

text \<open>\<open>object[key]\<close> and \<open>key in object\<close>, for an object whose own entries are \<open>own\<close>.\<close>

definition getProperty ::
  "prototypeWrites option \<Rightarrow> (string \<Rightarrow> 'a option) \<Rightarrow> string \<Rightarrow> 'a property" where
  "getProperty proto own key =
     (case own key of
        Some v \<Rightarrow> Own v
      | None \<Rightarrow>
          (case inheritedMember proto key of
             Some m \<Rightarrow> Inherited m
           | None \<Rightarrow> Undefined))"

definition hasProperty ::
  "prototypeWrites option \<Rightarrow> (string \<Rightarrow> 'a option) \<Rightarrow> string \<Rightarrow> bool" where
  "hasProperty proto own key \<longleftrightarrow> getProperty proto own key \<noteq> Undefined"

text \<open>
  The test \<open>if (value)\<close>. The own entries of the dictionaries are objects and arrays,
  which are truthy, as functions are; \<open>NaN\<close>, the empty string and \<open>undefined\<close> are not.
\<close>

fun truthy :: "'a property \<Rightarrow> bool" where
  "truthy (Own v) = True"
| "truthy (Inherited (Function f)) = True"
| "truthy (Inherited PrototypeObject) = True"
| "truthy (Inherited NotANumber) = False"
| "truthy (Inherited (Text s)) = (s \<noteq> [])"
| "truthy Undefined = False"

text \<open>
  A value used as a key is turned into a string: a built-in function prints as
  \<open>function name() { [native code] }\<close>, \<open>Object.prototype\<close> as \<open>[object Object]\<close>.
\<close>

fun toPropertyKey :: "string property \<Rightarrow> string" where
  "toPropertyKey (Own s) = s"
| "toPropertyKey (Inherited (Function f)) = ''function '' @ f @ ''() { [native code] }''"
| "toPropertyKey (Inherited PrototypeObject) = ''[object Object]''"
| "toPropertyKey (Inherited NotANumber) = ''NaN''"
| "toPropertyKey (Inherited (Text s)) = s"
| "toPropertyKey Undefined = ''undefined''"

text \<open>
  The assignment \<open>object[key] = value\<close> makes or replaces an own entry, except through the
  accessor: with no own entry \<open>__proto__\<close>, assigning a string does nothing, and assigning
  an array makes that array the prototype of the object and adds no entry.
\<close>

definition assignsOwnEntry :: "(string \<times> 'a) list \<Rightarrow> string \<Rightarrow> bool" where
  "assignsOwnEntry entries key \<longleftrightarrow> key \<in> fst ` set entries \<or> key \<noteq> ''__proto__''"

definition assignProperty :: "string \<Rightarrow> 'a \<Rightarrow> (string \<times> 'a) list \<Rightarrow> (string \<times> 'a) list" where
  "assignProperty key v entries =
     (if assignsOwnEntry entries key then AList.update key v entries else entries)"

text \<open>
  The names an array gives to an object that has it as prototype: its indices,
  \<open>length\<close>, and the members of \<open>Array.prototype\<close> (those of ECMAScript 2023).
\<close>

definition digits :: "nat \<Rightarrow> string" where
  "digits d = [''0123456789'' ! d]"

function decimal :: "nat \<Rightarrow> string" where
  "decimal n = (if n < 10 then digits n else decimal (n div 10) @ digits (n mod 10))"
  by pat_completeness auto
termination
  by (relation "measure id") auto

declare decimal.simps [simp del]

definition Array_prototype_names :: "string list" where
  "Array_prototype_names =
     [''length'', ''constructor'', ''at'', ''concat'', ''copyWithin'', ''fill'', ''find'',
      ''findIndex'', ''findLast'', ''findLastIndex'', ''lastIndexOf'', ''pop'', ''push'',
      ''reverse'', ''shift'', ''unshift'', ''slice'', ''sort'', ''splice'', ''includes'',
      ''indexOf'', ''join'', ''keys'', ''entries'', ''values'', ''forEach'', ''filter'',
      ''flat'', ''flatMap'', ''map'', ''every'', ''some'', ''reduce'', ''reduceRight'',
      ''toLocaleString'', ''toString'', ''toReversed'', ''toSorted'', ''toSpliced'', ''with'']"

definition arrayMemberNames :: "'a list \<Rightarrow> string list" where
  "arrayMemberNames xs = map decimal [0..<length xs] @ Array_prototype_names"

section \<open>Metrics ledger: data model (metrics/types.ts)\<close>

text \<open>
  Durations are millisecond differences of \<open>Date.now()\<close>, hence integers; counters are
  natural numbers. The opaque JSON payloads of an invocation (\<open>arguments\<close>, \<open>result\<close>)
  are kept as text. \<open>tool_stats\<close> holds the own entries of the \<open>Record<string, ToolStats>\<close>
  object; what a lookup finds beyond them is given by \<open>getProperty\<close>.
\<close>

record ToolInvocation =
  tool :: string
  timestamp :: string
  duration_ms :: int
  reasoning :: string
  arguments :: string
  success :: bool
  error :: "string option"
  result :: "string option"

record ToolStats =
  call_count :: nat
  total_duration_ms :: int
  avg_duration_ms :: int
  success_count :: nat
  error_count :: nat
  last_used :: string

record MetricsData =
  server_name :: string
  created_at :: string
  updated_at :: string
  total_invocations :: nat
  tool_stats :: "string \<rightharpoonup> ToolStats"
  invocations :: "ToolInvocation list"

definition createEmptyMetricsData :: "string \<Rightarrow> string \<Rightarrow> MetricsData" where
  "createEmptyMetricsData serverName now =
     \<lparr>server_name = serverName, created_at = now, updated_at = now,
      total_invocations = 0, tool_stats = Map.empty, invocations = []\<rparr>"

section \<open>Size enforcement (metrics/storage.ts)\<close>

text \<open>
  \<open>Math.max(1, Math.floor(length * 0.25))\<close>: multiplying by a power of two is exact, so
  the floor is the integer quotient by four.
\<close>

definition removeCount :: "nat \<Rightarrow> nat" where
  "removeCount n = max 1 (n div 4)"

text \<open>One pass through the loop body: \<open>data.invocations = data.invocations.slice(removeCount)\<close>.\<close>

definition trimStep :: "MetricsData \<Rightarrow> MetricsData" where
  "trimStep d = d\<lparr>invocations := drop (removeCount (length (invocations d))) (invocations d)\<rparr>"

text \<open>
  The loop of \<open>trimInvocationsForSize\<close>. The length of \<open>JSON.stringify(data)\<close> is a
  parameter \<open>jsonLength\<close>, measured anew on the current document before every test of the
  loop condition. The loop is first written as it stands, with no assumption that it ends
  (\<open>None\<close> would be a run that never returns).
\<close>

partial_function (option) trimLoop ::
  "(MetricsData \<Rightarrow> nat) \<Rightarrow> MetricsData \<Rightarrow> int \<Rightarrow> MetricsData option" where
  "trimLoop jsonLength d maxSizeBytes =
     (if int (jsonLength d) > maxSizeBytes \<and> length (invocations d) > 0
      then trimLoop jsonLength (trimStep d) maxSizeBytes
      else Some d)"

function trimInvocationsForSize ::
  "(MetricsData \<Rightarrow> nat) \<Rightarrow> MetricsData \<Rightarrow> int \<Rightarrow> MetricsData" where
  "trimInvocationsForSize jsonLength d maxSizeBytes =
     (if int (jsonLength d) > maxSizeBytes \<and> length (invocations d) > 0
      then trimInvocationsForSize jsonLength (trimStep d) maxSizeBytes
      else d)"
  by pat_completeness auto
termination
  by (relation "measure (\<lambda>(jsonLength, d, maxSizeBytes). length (invocations d))")
     (auto simp: trimStep_def removeCount_def)

declare trimInvocationsForSize.simps [simp del]

text \<open>The number of passes the loop makes, counted along the same recursion.\<close>

function trimPasses :: "(MetricsData \<Rightarrow> nat) \<Rightarrow> MetricsData \<Rightarrow> int \<Rightarrow> nat" where
  "trimPasses jsonLength d maxSizeBytes =
     (if int (jsonLength d) > maxSizeBytes \<and> length (invocations d) > 0
      then Suc (trimPasses jsonLength (trimStep d) maxSizeBytes)
      else 0)"
  by pat_completeness auto
termination
  by (relation "measure (\<lambda>(jsonLength, d, maxSizeBytes). length (invocations d))")
     (auto simp: trimStep_def removeCount_def)

declare trimPasses.simps [simp del]

section \<open>MetricsCollector (metrics/collector.ts)\<close>

text \<open>
  \<open>Math.round\<close> returns the nearest integer, a tie going towards plus infinity. The
  quotient is taken over the reals: the model leaves the rounding error of a double
  division out, which is exact as long as the totals stay far below \<open>2^52\<close>.
\<close>

definition Math_round :: "real \<Rightarrow> int" where
  "Math_round x = \<lfloor>x + 1 / 2\<rfloor>"

text \<open>A file of the metrics directory: absent, present but failing validation, or a document.\<close>

datatype 'a stored = Missing | Corrupt | Valid 'a

text \<open>
  The collector object with, beside its fields, the part of the environment it acts on:
  the metrics files by server name, the lines written by \<open>console.error\<close>, what the
  program has written to \<open>Object.prototype\<close>, and the errors \<open>record\<close> has thrown to
  its callers. The write queue is the number of flush tasks chained and not yet run.
\<close>

record MetricsCollector =
  data :: MetricsData
  serverName :: string
  maxSizeBytes :: int
  writeQueue :: nat
  initialized :: bool
  metricsFiles :: "string \<Rightarrow> MetricsData stored"
  console :: "string list"
  objectPrototype :: "prototypeWrites option"
  thrown :: "js_error list"

definition newMetricsCollector ::
  "string \<Rightarrow> int \<Rightarrow> string \<Rightarrow> (string \<Rightarrow> MetricsData stored) \<Rightarrow> MetricsCollector" where
  "newMetricsCollector name maxSize now files =
     \<lparr>data = createEmptyMetricsData name now, serverName = name, maxSizeBytes = maxSize,
      writeQueue = 0, initialized = False, metricsFiles = files, console = [],
      objectPrototype = None, thrown = []\<rparr>"

definition saveMetrics ::
  "MetricsData \<Rightarrow> (string \<Rightarrow> MetricsData stored) \<Rightarrow> (string \<Rightarrow> MetricsData stored)" where
  "saveMetrics d files = files(server_name d := Valid d)"

definition initializeMetricsFile ::
  "string \<Rightarrow> string \<Rightarrow> (string \<Rightarrow> MetricsData stored) \<Rightarrow> (string \<Rightarrow> MetricsData stored)" where
  "initializeMetricsFile name now files =
     (if files name = Missing then saveMetrics (createEmptyMetricsData name now) files
      else files)"

definition loadMetrics :: "string \<Rightarrow> string \<Rightarrow> (string \<Rightarrow> MetricsData stored) \<Rightarrow> MetricsData" where
  "loadMetrics name now files =
     (case files name of
        Valid d \<Rightarrow> d
      | _ \<Rightarrow> createEmptyMetricsData name now)"

text \<open>\<open>io_ok = False\<close> is the branch where creating the directory or file throws.\<close>

definition initialize :: "string \<Rightarrow> bool \<Rightarrow> MetricsCollector \<Rightarrow> MetricsCollector" where
  "initialize now io_ok c =
     (if io_ok then
        (let files = initializeMetricsFile (serverName c) now (metricsFiles c)
         in c\<lparr>metricsFiles := files, data := loadMetrics (serverName c) now files,
              initialized := True\<rparr>)
      else
        c\<lparr>console := console c @ [''Failed to initialize metrics:''],
          data := createEmptyMetricsData (serverName c) now, initialized := True\<rparr>)"

text \<open>
  \<open>updateToolStats\<close>. \<open>existing\<close> is \<open>this.data.tool_stats[toolName]\<close>, own or
  inherited. The branch \<open>if (existing)\<close> increments and assigns fields of whatever was
  found: of the own entry; of a built-in function, which leaves the document and
  \<open>Object.prototype\<close> as they are; of \<open>Object.prototype\<close> itself, reached through
  \<open>__proto__\<close>; or of a string, where the first assignment throws, the class body being
  strict code. The \<open>else\<close> branch makes the entry of a first invocation.
\<close>

definition firstStats :: "ToolInvocation \<Rightarrow> ToolStats" where
  "firstStats invocation =
     \<lparr>call_count = 1,
      total_duration_ms = duration_ms invocation,
      avg_duration_ms = duration_ms invocation,
      success_count = (if success invocation then 1 else 0),
      error_count = (if success invocation then 0 else 1),
      last_used = timestamp invocation\<rparr>"

definition nextStats :: "ToolInvocation \<Rightarrow> ToolStats \<Rightarrow> ToolStats" where
  "nextStats invocation existing =
     (let e1 = existing\<lparr>call_count := call_count existing + 1\<rparr>;
          e2 = e1\<lparr>total_duration_ms := total_duration_ms e1 + duration_ms invocation\<rparr>;
          e3 = e2\<lparr>avg_duration_ms :=
                    Math_round (real_of_int (total_duration_ms e2) / real (call_count e2))\<rparr>;
          e4 = e3\<lparr>last_used := timestamp invocation\<rparr>
      in if success invocation
         then e4\<lparr>success_count := success_count e4 + 1\<rparr>
         else e4\<lparr>error_count := error_count e4 + 1\<rparr>)"

definition writeThroughProto :: "ToolInvocation \<Rightarrow> prototypeWrites option \<Rightarrow> prototypeWrites" where
  "writeThroughProto invocation proto =
     \<lparr>written_last_used = timestamp invocation,
      written_success_count =
        (success invocation \<or> (case proto of None \<Rightarrow> False | Some w \<Rightarrow> written_success_count w)),
      written_error_count =
        (\<not> success invocation \<or> (case proto of None \<Rightarrow> False | Some w \<Rightarrow> written_error_count w))\<rparr>"

definition updateToolStats ::
  "prototypeWrites option \<Rightarrow> ToolInvocation \<Rightarrow> MetricsData
     \<Rightarrow> js_error + MetricsData \<times> prototypeWrites option" where
  "updateToolStats proto invocation d =
     (let toolName = tool invocation;
          existing = getProperty proto (tool_stats d) toolName
      in if truthy existing then
           (case existing of
              Own e \<Rightarrow>
                Inr (d\<lparr>tool_stats := (tool_stats d)(toolName \<mapsto> nextStats invocation e)\<rparr>, proto)
            | Inherited (Function f) \<Rightarrow> Inr (d, proto)
            | Inherited PrototypeObject \<Rightarrow> Inr (d, Some (writeThroughProto invocation proto))
            | Inherited (Text s) \<Rightarrow>
                Inl (TypeError ''Cannot create property call_count on string'')
            | _ \<Rightarrow> Inr (d, proto))
         else
           Inr (d\<lparr>tool_stats := (tool_stats d)(toolName \<mapsto> firstStats invocation)\<rparr>, proto))"

text \<open>
  \<open>record(invocation)\<close>; \<open>now\<close> is the clock reading taken for \<open>updated_at\<close>. When
  \<open>updateToolStats\<close> throws, the error leaves \<open>record\<close> after the append and the counter,
  and before the flush is queued.
\<close>

definition record_invocation :: "string \<Rightarrow> ToolInvocation \<Rightarrow> MetricsCollector \<Rightarrow> MetricsCollector" where
  "record_invocation now invocation c =
     (if \<not> initialized c then
        c\<lparr>console := console c @ [''MetricsCollector not initialized, skipping record'']\<rparr>
      else
        (let d1 = (data c)\<lparr>invocations := invocations (data c) @ [invocation]\<rparr>;
             d2 = d1\<lparr>total_invocations := total_invocations d1 + 1\<rparr>;
             d3 = d2\<lparr>updated_at := now\<rparr>
         in case updateToolStats (objectPrototype c) invocation d3 of
              Inr (d4, proto) \<Rightarrow>
                c\<lparr>data := d4, objectPrototype := proto, writeQueue := writeQueue c + 1\<rparr>
            | Inl e \<Rightarrow> c\<lparr>data := d3, thrown := thrown c @ [e]\<rparr>))"

text \<open>
  \<open>persistToDisk\<close>: trim, then save; \<open>write_ok = False\<close> is the branch where the write
  throws and the error is logged. The trim has happened by then.
\<close>

definition persistToDisk ::
  "(MetricsData \<Rightarrow> nat) \<Rightarrow> bool \<Rightarrow> MetricsCollector \<Rightarrow> MetricsCollector" where
  "persistToDisk jsonLength write_ok c =
     (let d = trimInvocationsForSize jsonLength (data c) (maxSizeBytes c) in
      if write_ok then c\<lparr>data := d, metricsFiles := saveMetrics d (metricsFiles c)\<rparr>
      else c\<lparr>data := d, console := console c @ [''Failed to save metrics:'']\<rparr>)"

text \<open>The event loop running the task at the head of the write queue, if there is one.\<close>

definition runQueuedWrite ::
  "(MetricsData \<Rightarrow> nat) \<Rightarrow> bool \<Rightarrow> MetricsCollector \<Rightarrow> MetricsCollector" where
  "runQueuedWrite jsonLength write_ok c =
     (if writeQueue c = 0 then c
      else persistToDisk jsonLength write_ok (c\<lparr>writeQueue := writeQueue c - 1\<rparr>))"

text \<open>What happens to a collector over time: calls of \<open>record\<close> and queued flushes.\<close>

datatype metrics_event = Record string ToolInvocation | Flush bool

fun step :: "(MetricsData \<Rightarrow> nat) \<Rightarrow> metrics_event \<Rightarrow> MetricsCollector \<Rightarrow> MetricsCollector" where
  "step jsonLength (Record now invocation) c = record_invocation now invocation c"
| "step jsonLength (Flush write_ok) c = runQueuedWrite jsonLength write_ok c"

fun run :: "(MetricsData \<Rightarrow> nat) \<Rightarrow> metrics_event list \<Rightarrow> MetricsCollector \<Rightarrow> MetricsCollector" where
  "run jsonLength [] c = c"
| "run jsonLength (e # es) c = run jsonLength es (step jsonLength e c)"

text \<open>The invocations handed to \<open>record\<close> for one tool name, in order.\<close>

fun recorded :: "string \<Rightarrow> metrics_event list \<Rightarrow> ToolInvocation list" where
  "recorded name [] = []"
| "recorded name (Record now invocation # es) =
     (if tool invocation = name then invocation # recorded name es else recorded name es)"
| "recorded name (Flush write_ok # es) = recorded name es"

section \<open>IssueCollector (metrics/issues.ts)\<close>

datatype IssueSeverity = Low | Medium | High | Critical

datatype IssueCategory = Bug | FeatureRequest | Documentation | Performance | Security | Other

text \<open>The argument object of \<open>report\<close>; an issue report is that object with an id and a date.\<close>

record ReportParams =
  title :: string
  description :: string
  severity :: IssueSeverity
  category :: IssueCategory
  steps_to_reproduce :: "string option"
  expected_behavior :: "string option"
  actual_behavior :: "string option"
  environment :: "string option"

record IssueReport = ReportParams +
  issue_id :: string
  issue_created_at :: string

record IssuesData =
  issues_server_name :: string
  issues_created_at :: string
  issues_updated_at :: string
  total_issues :: nat
  issues :: "IssueReport list"

definition createEmptyIssuesData :: "string \<Rightarrow> string \<Rightarrow> IssuesData" where
  "createEmptyIssuesData name now =
     \<lparr>issues_server_name = name, issues_created_at = now, issues_updated_at = now,
      total_issues = 0, issues = []\<rparr>"

definition MAX_ISSUES :: nat where
  "MAX_ISSUES = 100"

record IssueCollector =
  issueData :: IssuesData
  issueServerName :: string
  issueWriteQueue :: nat
  issueInitialized :: bool
  issueFiles :: "string \<Rightarrow> IssuesData stored"
  issueConsole :: "string list"

definition newIssueCollector ::
  "string \<Rightarrow> string \<Rightarrow> (string \<Rightarrow> IssuesData stored) \<Rightarrow> IssueCollector" where
  "newIssueCollector name now files =
     \<lparr>issueData = createEmptyIssuesData name now, issueServerName = name,
      issueWriteQueue = 0, issueInitialized = False, issueFiles = files, issueConsole = []\<rparr>"

definition saveIssues ::
  "IssuesData \<Rightarrow> (string \<Rightarrow> IssuesData stored) \<Rightarrow> (string \<Rightarrow> IssuesData stored)" where
  "saveIssues d files = files(issues_server_name d := Valid d)"

definition initializeIssuesFile ::
  "string \<Rightarrow> string \<Rightarrow> (string \<Rightarrow> IssuesData stored) \<Rightarrow> (string \<Rightarrow> IssuesData stored)" where
  "initializeIssuesFile name now files =
     (if files name = Missing then saveIssues (createEmptyIssuesData name now) files
      else files)"

definition loadIssues :: "string \<Rightarrow> string \<Rightarrow> (string \<Rightarrow> IssuesData stored) \<Rightarrow> IssuesData" where
  "loadIssues name now files =
     (case files name of
        Valid d \<Rightarrow> d
      | _ \<Rightarrow> createEmptyIssuesData name now)"

definition initializeIssues :: "string \<Rightarrow> bool \<Rightarrow> IssueCollector \<Rightarrow> IssueCollector" where
  "initializeIssues now io_ok c =
     (if io_ok then
        (let files = initializeIssuesFile (issueServerName c) now (issueFiles c)
         in c\<lparr>issueFiles := files, issueData := loadIssues (issueServerName c) now files,
              issueInitialized := True\<rparr>)
      else
        c\<lparr>issueConsole := issueConsole c @ [''Failed to initialize issues:''],
          issueData := createEmptyIssuesData (issueServerName c) now,
          issueInitialized := True\<rparr>)"

text \<open>
  \<open>generateIssueId\<close>: the base-36 renderings of \<open>Date.now()\<close> and of \<open>Math.random()\<close>
  are inputs; \<open>substring(2, 8)\<close> keeps at most six characters after the first two.
\<close>

definition generateIssueId :: "string \<Rightarrow> string \<Rightarrow> string" where
  "generateIssueId timestamp36 random36 = timestamp36 @ ''-'' @ take 6 (drop 2 random36)"

text \<open>
  \<open>report(params)\<close>. The result is the thrown error or the created issue, together with
  the collector afterwards. \<open>now\<close> is the clock reading used for the dates.
\<close>

definition report ::
  "string \<Rightarrow> string \<Rightarrow> string \<Rightarrow> ReportParams \<Rightarrow> IssueCollector
     \<Rightarrow> (js_error + IssueReport) \<times> IssueCollector" where
  "report timestamp36 random36 now params c =
     (if \<not> issueInitialized c then (Inl (Error ''IssueCollector not initialized''), c)
      else
        (let issue = \<lparr>title = title params,
                       description = description params,
                       severity = severity params,
                       category = category params,
                       steps_to_reproduce = steps_to_reproduce params,
                       expected_behavior = expected_behavior params,
                       actual_behavior = actual_behavior params,
                       environment = environment params,
                       issue_id = generateIssueId timestamp36 random36,
                       issue_created_at = now\<rparr>;
             d1 = (issueData c)\<lparr>issues := issue # issues (issueData c)\<rparr>;
             d2 = d1\<lparr>total_issues := total_issues d1 + 1\<rparr>;
             d3 = d2\<lparr>issues_updated_at := now\<rparr>;
             d4 = (if length (issues d3) > MAX_ISSUES
                   then d3\<lparr>issues := take MAX_ISSUES (issues d3)\<rparr>
                   else d3)
         in (Inr issue, c\<lparr>issueData := d4, issueWriteQueue := issueWriteQueue c + 1\<rparr>)))"

text \<open>A series of \<open>report\<close> calls; the states after each call, in order.\<close>

fun reportAll ::
  "(string \<times> string \<times> string \<times> ReportParams) list \<Rightarrow> IssueCollector \<Rightarrow> IssueCollector list" where
  "reportAll [] c = []"
| "reportAll ((timestamp36, random36, now, params) # rest) c =
     (let c' = snd (report timestamp36 random36 now params c) in c' # reportAll rest c')"

section \<open>Style configuration (config/styles.ts)\<close>

text \<open>
  A \<open>Record<string, T>\<close> that the code enumerates (\<open>Object.keys\<close>, \<open>Object.entries\<close>,
  spread) is an association list in insertion order: \<open>map_of\<close> reads a key,
  \<open>assignProperty\<close> assigns one, \<open>AList.delete\<close> deletes one. The keys of an object are
  distinct. The list holds the own entries; \<open>key in object\<close> and \<open>object[key]\<close> also
  find the inherited members, through \<open>hasProperty\<close> and \<open>getProperty\<close>.
\<close>

record StyleConfig =
  styles :: "(string \<times> string list) list"
  folders :: "(string \<times> string) list"

datatype scope = Global | Project

text \<open>
  The state the module works on. \<open>DEFAULT_CONFIG\<close> is one object for the lifetime of the
  process: its two dictionaries are \<open>defaultStyles\<close> and \<open>defaultFolders\<close>, both empty
  when the module is loaded. A configuration file is \<open>None\<close> when it is absent or does not
  parse, and otherwise the configuration read from it (a missing \<open>styles\<close> or \<open>folders\<close>
  member being an empty dictionary). The project file is found under the project root.
  \<open>defaultStylesPrototype\<close> is the array that an assignment through \<open>__proto__\<close> has
  made the prototype of \<open>DEFAULT_CONFIG.styles\<close>, if there was one; \<open>priorWrites\<close> is
  what the process has written to \<open>Object.prototype\<close> by the time the module is used.
\<close>

record store =
  defaultStyles :: "(string \<times> string list) list"
  defaultFolders :: "(string \<times> string) list"
  projectRoot :: string
  globalFile :: "StyleConfig option"
  projectFile :: "string \<Rightarrow> StyleConfig option"
  defaultStylesPrototype :: "string list option"
  priorWrites :: "prototypeWrites option"

definition freshStore :: "string \<Rightarrow> store" where
  "freshStore cwd =
     \<lparr>defaultStyles = [], defaultFolders = [], projectRoot = cwd,
      globalFile = None, projectFile = (\<lambda>root. None),
      defaultStylesPrototype = None, priorWrites = None\<rparr>"

definition setProjectRoot :: "string \<Rightarrow> store \<Rightarrow> store" where
  "setProjectRoot path s = s\<lparr>projectRoot := path\<rparr>"

text \<open>
  \<open>readConfigFile\<close>: a file that parses gives fresh dictionaries. In the \<open>catch\<close> branch
  the result is \<open>{ ...DEFAULT_CONFIG }\<close>, a new outer object whose \<open>styles\<close> and
  \<open>folders\<close> are the dictionaries of \<open>DEFAULT_CONFIG\<close> themselves; the flag returned
  with the configuration says so, and an assignment or deletion made through such a
  configuration is made to \<open>DEFAULT_CONFIG\<close>.
\<close>

definition readConfigFile :: "StyleConfig option \<Rightarrow> store \<Rightarrow> StyleConfig \<times> bool" where
  "readConfigFile file s =
     (case file of
        Some parsed \<Rightarrow> (\<lparr>styles = styles parsed, folders = folders parsed\<rparr>, False)
      | None \<Rightarrow> (\<lparr>styles = defaultStyles s, folders = defaultFolders s\<rparr>, True))"

definition readGlobalConfig :: "store \<Rightarrow> StyleConfig \<times> bool" where
  "readGlobalConfig s = readConfigFile (globalFile s) s"

definition readProjectConfig :: "store \<Rightarrow> StyleConfig \<times> bool" where
  "readProjectConfig s = readConfigFile (projectFile s (projectRoot s)) s"

definition writeGlobalConfig :: "StyleConfig \<Rightarrow> store \<Rightarrow> store" where
  "writeGlobalConfig config s = s\<lparr>globalFile := Some config\<rparr>"

definition writeProjectConfig :: "StyleConfig \<Rightarrow> store \<Rightarrow> store" where
  "writeProjectConfig config s =
     s\<lparr>projectFile := (projectFile s)(projectRoot s := Some config)\<rparr>"

definition readScope :: "scope \<Rightarrow> store \<Rightarrow> StyleConfig \<times> bool" where
  "readScope sc s = (if sc = Global then readGlobalConfig s else readProjectConfig s)"

definition writeScope :: "scope \<Rightarrow> StyleConfig \<Rightarrow> store \<Rightarrow> store" where
  "writeScope sc config s =
     (if sc = Global then writeGlobalConfig config s else writeProjectConfig config s)"

text \<open>The effect on \<open>DEFAULT_CONFIG\<close> of having changed a configuration read from it.\<close>

definition shareWithDefault :: "bool \<Rightarrow> StyleConfig \<Rightarrow> store \<Rightarrow> store" where
  "shareWithDefault aliased config s =
     (if aliased then s\<lparr>defaultStyles := styles config, defaultFolders := folders config\<rparr>
      else s)"

text \<open>\<open>{ ...a, ...b }\<close>: the entries of \<open>a\<close>, then those of \<open>b\<close>, assigned in order.\<close>

definition spread :: "('k \<times> 'v) list \<Rightarrow> ('k \<times> 'v) list \<Rightarrow> ('k \<times> 'v) list" where
  "spread a b = fold (\<lambda>(k, v). AList.update k v) (a @ b) []"

record MergedStyleConfig = StyleConfig +
  sources_styles :: "(string \<times> scope) list"
  sources_folders :: "(string \<times> scope) list"

text \<open>
  \<open>getMergedConfig\<close>. The names and paths enumerated are the own keys of the two
  dictionaries as read; the marks are assigned for the keys that the writers of this module
  store, none of which is an own \<open>__proto__\<close>.
\<close>

definition mergeConfigs :: "StyleConfig \<Rightarrow> StyleConfig \<Rightarrow> MergedStyleConfig" where
  "mergeConfigs global project =
     (let ss1 = fold (\<lambda>name src. AList.update name Global src) (map fst (styles global)) [];
          sf1 = fold (\<lambda>path src. AList.update path Global src) (map fst (folders global)) [];
          ss2 = fold (\<lambda>name src. AList.update name Project src) (map fst (styles project)) ss1;
          sf2 = fold (\<lambda>path src. AList.update path Project src) (map fst (folders project)) sf1
      in \<lparr>styles = spread (styles global) (styles project),
          folders = spread (folders global) (folders project),
          sources_styles = ss2, sources_folders = sf2\<rparr>)"

definition getMergedConfig :: "store \<Rightarrow> MergedStyleConfig" where
  "getMergedConfig s = mergeConfigs (fst (readGlobalConfig s)) (fst (readProjectConfig s))"

text \<open>
  The writers. \<open>write_ok = False\<close> is the run in which \<open>fs.writeFile\<close> throws: the
  promise rejects, after whatever was done to the configuration in memory.
\<close>

definition saveStyle ::
  "string \<Rightarrow> string list \<Rightarrow> scope \<Rightarrow> bool \<Rightarrow> store \<Rightarrow> (js_error + unit) \<times> store" where
  "saveStyle name styleTags sc write_ok s =
     (let (config, aliased) = readScope sc s;
          config1 = config\<lparr>styles := assignProperty name styleTags (styles config)\<rparr>;
          s1 = shareWithDefault aliased config1 s;
          s2 = (if aliased \<and> \<not> assignsOwnEntry (styles config) name
                then s1\<lparr>defaultStylesPrototype := Some styleTags\<rparr> else s1)
      in if write_ok then (Inr (), writeScope sc config1 s2)
         else (Inl (Error ''writeFile''), s2))"

text \<open>
  \<open>name in config.styles\<close>, for a configuration as \<open>readConfigFile\<close> returned it: an own
  entry, or a member inherited from the prototype of the dictionary, which is
  \<open>Object.prototype\<close> preceded, for the shared default, by the array made its prototype.
\<close>

definition inStyles :: "store \<Rightarrow> bool \<Rightarrow> StyleConfig \<Rightarrow> string \<Rightarrow> bool" where
  "inStyles s aliased config name \<longleftrightarrow>
     name \<in> fst ` set (styles config) \<or>
     (aliased \<and> (case defaultStylesPrototype s of
                    None \<Rightarrow> False
                  | Some array \<Rightarrow> name \<in> set (arrayMemberNames array))) \<or>
     inheritedMember (priorWrites s) name \<noteq> None"

definition deleteStyle ::
  "string \<Rightarrow> scope \<Rightarrow> bool \<Rightarrow> store \<Rightarrow> (js_error + bool) \<times> store" where
  "deleteStyle name sc write_ok s =
     (let (config, aliased) = readScope sc s in
      if \<not> inStyles s aliased config name then (Inr False, s)
      else
        (let config1 = config\<lparr>styles := AList.delete name (styles config)\<rparr>;
             config2 = config1\<lparr>folders :=
                         fold (\<lambda>(folder, styleName) fs.
                                 if styleName = name then AList.delete folder fs else fs)
                              (folders config1) (folders config1)\<rparr>;
             s1 = shareWithDefault aliased config2 s
         in if write_ok then (Inr True, writeScope sc config2 s1)
            else (Inl (Error ''writeFile''), s1)))"

text \<open>\<open>path.replace(/\/+$/, "")\<close> removes the slashes the string ends with.\<close>

definition stripTrailingSlashes :: "string \<Rightarrow> string" where
  "stripTrailingSlashes path = rev (dropWhile (\<lambda>c. c = CHR ''/'') (rev path))"

definition setFolderStyle ::
  "string \<Rightarrow> string \<Rightarrow> scope \<Rightarrow> bool \<Rightarrow> store \<Rightarrow> (js_error + unit) \<times> store" where
  "setFolderStyle folderPath styleName sc write_ok s =
     (let (config, aliased) = readScope sc s;
          normalizedPath = stripTrailingSlashes folderPath;
          config1 = config\<lparr>folders := assignProperty normalizedPath styleName (folders config)\<rparr>;
          s1 = shareWithDefault aliased config1 s
      in if write_ok then (Inr (), writeScope sc config1 s1)
         else (Inl (Error ''writeFile''), s1))"

text \<open>\<open>split("/")\<close> and \<open>join("/")\<close>; the split of the empty string is one empty part.\<close>

fun split_slash :: "string \<Rightarrow> string list" where
  "split_slash [] = [[]]"
| "split_slash (c # cs) =
     (if c = CHR ''/'' then [] # split_slash cs
      else (c # hd (split_slash cs)) # tl (split_slash cs))"

fun join_slash :: "string list \<Rightarrow> string" where
  "join_slash [] = []"
| "join_slash [part] = part"
| "join_slash (part # rest) = part @ ''/'' @ join_slash rest"

text \<open>
  The result is typed \<open>{style: string, tags: string[], matchedPath: string}\<close>; what the
  code puts in \<open>style\<close> and \<open>tags\<close> is what the two lookups found.
\<close>

record StyleMatch =
  style :: "string property"
  tags :: "string list property"
  matchedPath :: string

text \<open>
  The test made at the exact path and again at each parent path: \<open>path in config.folders\<close>,
  then \<open>config.styles[config.folders[path]]\<close> with \<open>if (tags)\<close>.
\<close>

definition matchAt ::
  "prototypeWrites option \<Rightarrow> 'a StyleConfig_scheme \<Rightarrow> string \<Rightarrow> StyleMatch option" where
  "matchAt proto config path =
     (if hasProperty proto (map_of (folders config)) path then
        (let styleName = getProperty proto (map_of (folders config)) path;
             styleTags = getProperty proto (map_of (styles config)) (toPropertyKey styleName)
         in if truthy styleTags
            then Some \<lparr>style = styleName, tags = styleTags, matchedPath = path\<rparr>
            else None)
      else None)"

text \<open>The loop \<open>for (let i = parts.length - 1; i > 0; i--)\<close>, from the value of \<open>i\<close> on.\<close>

fun parentWalk ::
  "prototypeWrites option \<Rightarrow> 'a StyleConfig_scheme \<Rightarrow> string list \<Rightarrow> nat \<Rightarrow> StyleMatch option" where
  "parentWalk proto config parts 0 = None"
| "parentWalk proto config parts (Suc n) =
     (let parentPath = join_slash (take (Suc n) parts) in
      case matchAt proto config parentPath of
        Some m \<Rightarrow> Some m
      | None \<Rightarrow> parentWalk proto config parts n)"

definition resolveFolder ::
  "prototypeWrites option \<Rightarrow> 'a StyleConfig_scheme \<Rightarrow> string \<Rightarrow> StyleMatch option" where
  "resolveFolder proto config folderPath =
     (let normalizedPath = stripTrailingSlashes folderPath in
      case matchAt proto config normalizedPath of
        Some m \<Rightarrow> Some m
      | None \<Rightarrow>
          (let parts = split_slash normalizedPath
           in parentWalk proto config parts (length parts - 1)))"

definition getStyleForFolder :: "string \<Rightarrow> store \<Rightarrow> StyleMatch option" where
  "getStyleForFolder folderPath s = resolveFolder (priorWrites s) (getMergedConfig s) folderPath"

section \<open>Notions used in the statements\<close>

text \<open>
  What the ledger holds for one tool name after \<open>k\<close> recorded invocations whose durations
  add up to \<open>s\<close>: no entry when nothing was recorded, and otherwise an entry with that
  count, that total and the rounded mean.
\<close>

definition entry_is :: "ToolStats option \<Rightarrow> nat \<Rightarrow> int \<Rightarrow> bool" where
  "entry_is eo k s =
     (case eo of
        None \<Rightarrow> k = 0 \<and> s = 0
      | Some st \<Rightarrow> k > 0 \<and> call_count st = k \<and> total_duration_ms st = s \<and>
                  avg_duration_ms st = Math_round (real_of_int s / real k))"

text \<open>
  The tool names for which a lookup in the statistics finds the own entry or nothing
  truthy, whatever the program has written to \<open>Object.prototype\<close>.
\<close>

definition plainName :: "string \<Rightarrow> bool" where
  "plainName name \<longleftrightarrow> name \<notin> set Object_prototype_names \<and> name \<noteq> ''last_used''"

text \<open>The count and the total of an entry, none counting as 0 and 0.\<close>

definition entry_has :: "ToolStats option \<Rightarrow> nat \<Rightarrow> int \<Rightarrow> bool" where
  "entry_has eo k s =
     (case eo of
        None \<Rightarrow> k = 0 \<and> s = 0
      | Some st \<Rightarrow> call_count st = k \<and> total_duration_ms st = s)"

text \<open>The two invariants of an entry, where there is one.\<close>

definition entry_sound :: "ToolStats option \<Rightarrow> bool" where
  "entry_sound eo =
     (case eo of
        None \<Rightarrow> True
      | Some st \<Rightarrow> call_count st = success_count st + error_count st \<and>
                  avg_duration_ms st =
                    Math_round (real_of_int (total_duration_ms st) / real (call_count st)))"

text \<open>
  The ancestor directories of a path, nearest first: for every slash of the path, from
  the last to the first, what stands before it. The root is the empty path, as
  \<open>setFolderStyle("/")\<close> stores it.
\<close>

definition ancestorDirs :: "string \<Rightarrow> string list" where
  "ancestorDirs path =
     rev (map (\<lambda>i. take i path) (filter (\<lambda>i. path ! i = CHR ''/'') [0..<length path]))"

text \<open>The first path of a list at which the configuration has a match.\<close>

fun firstMatch ::
  "prototypeWrites option \<Rightarrow> 'a StyleConfig_scheme \<Rightarrow> string list \<Rightarrow> StyleMatch option" where
  "firstMatch proto config [] = None"
| "firstMatch proto config (path # paths) =
     (case matchAt proto config path of
        Some m \<Rightarrow> Some m
      | None \<Rightarrow> firstMatch proto config paths)"

text \<open>The same prefixes shortest first, and the parent paths the loop builds from the parts.\<close>

definition slashPrefixes :: "string \<Rightarrow> string list" where
  "slashPrefixes p = map (\<lambda>i. take i p) (filter (\<lambda>i. p ! i = CHR ''/'') [0..<length p])"

definition parentPaths :: "string list \<Rightarrow> string list" where
  "parentPaths parts = map (\<lambda>j. join_slash (take (Suc j) parts)) [0..<length parts - 1]"

text \<open>The file of a scope, and the scope that a call does not name.\<close>

definition scopeFile :: "scope \<Rightarrow> store \<Rightarrow> StyleConfig option" where
  "scopeFile sc s = (if sc = Global then globalFile s else projectFile s (projectRoot s))"

definition otherScope :: "scope \<Rightarrow> scope" where
  "otherScope sc = (if sc = Global then Project else Global)"

section \<open>Worked examples\<close>

definition exampleInvocation :: "string \<Rightarrow> int \<Rightarrow> bool \<Rightarrow> ToolInvocation" where
  "exampleInvocation name d ok =
     \<lparr>tool = name, timestamp = ''2024-01-01T00:00:00.000Z'', duration_ms = d,
      reasoning = ''r'', arguments = ''{}'', success = ok,
      error = (if ok then None else Some ''Something went wrong''), result = None\<rparr>"

definition exampleCollector :: MetricsCollector where
  "exampleCollector =
     initialize ''2024-01-01T00:00:00.000Z'' True
       (newMetricsCollector ''test'' 1048576 ''2024-01-01T00:00:00.000Z'' (\<lambda>name. Missing))"

definition exampleLength :: "MetricsData \<Rightarrow> nat" where
  "exampleLength d = 50 + 10 * length (invocations d)"

definition exampleLedger :: "nat \<Rightarrow> MetricsData" where
  "exampleLedger n =
     (createEmptyMetricsData ''test'' ''2024-01-01T00:00:00.000Z'')
       \<lparr>total_invocations := 100,
        tool_stats := [''my_tool'' \<mapsto> \<lparr>call_count = 100, total_duration_ms = 5000,
                        avg_duration_ms = 50, success_count = 95, error_count = 5,
                        last_used = ''2024-01-01T00:00:00.000Z''\<rparr>],
        invocations := map (\<lambda>k. exampleInvocation ''my_tool'' (int k) True) [0..<n]\<rparr>"

definition exampleEvents :: "metrics_event list" where
  "exampleEvents =
     [Record ''t1'' (exampleInvocation ''search'' 100 True),
      Record ''t2'' (exampleInvocation ''echo'' 7 True),
      Record ''t3'' (exampleInvocation ''search'' 200 True),
      Flush True,
      Record ''t4'' (exampleInvocation ''search'' 302 False)]"

definition exampleParams :: ReportParams where
  "exampleParams =
     \<lparr>title = ''Search returns nothing'', description = ''No results for any query'',
      severity = High, category = Bug, steps_to_reproduce = None,
      expected_behavior = None, actual_behavior = None, environment = None\<rparr>"

definition exampleIssue :: "nat \<Rightarrow> IssueReport" where
  "exampleIssue k =
     \<lparr>title = ''old'', description = ''d'', severity = Low, category = Other,
      steps_to_reproduce = None, expected_behavior = None, actual_behavior = None,
      environment = None, issue_id = replicate k CHR ''i'', issue_created_at = ''t0''\<rparr>"

definition exampleIssueCollector :: "nat \<Rightarrow> IssueCollector" where
  "exampleIssueCollector n =
     initializeIssues ''t0'' True
       (newIssueCollector ''test'' ''t0''
          (\<lambda>name. Valid \<lparr>issues_server_name = ''test'', issues_created_at = ''t0'',
                           issues_updated_at = ''t0'', total_issues = n,
                           issues = map exampleIssue (rev [0..<n])\<rparr>))"


text \<open>
  Two histories of a process started with no configuration file: a style saved to the
  global scope; and a style saved to the project scope, after which the project root is
  set to another directory.
\<close>

definition savedGlobally :: store where
  "savedGlobally = snd (saveStyle ''x'' [''t''] Global True (freshStore ''/repo''))"

definition movedProject :: store where
  "movedProject =
     setProjectRoot ''/B'' (snd (saveStyle ''x'' [''t''] Project True (freshStore ''/A'')))"

text \<open>A collector started on the ledger that an earlier process left, and what it then records.\<close>

definition restartedCollector :: MetricsCollector where
  "restartedCollector =
     initialize ''2024-01-02T00:00:00.000Z'' True
       (newMetricsCollector ''test'' 1048576 ''2024-01-02T00:00:00.000Z''
          (\<lambda>name. if name = ''test'' then Valid (exampleLedger 0) else Missing))"

definition restartEvents :: "metrics_event list" where
  "restartEvents =
     [Record ''t1'' (exampleInvocation ''my_tool'' 51 True),
      Flush True,
      Record ''t2'' (exampleInvocation ''my_tool'' 52 False)]"

text \<open>Invocations of tools named like members of \<open>Object.prototype\<close>.\<close>

definition inheritedEvents :: "metrics_event list" where
  "inheritedEvents =
     [Record ''t1'' (exampleInvocation ''__proto__'' 5 True),
      Record ''t2'' (exampleInvocation ''last_used'' 5 True)]"

text \<open>
  A fresh installation in which a style is saved and two folders are associated, the
  second with a name that is no style.
\<close>

definition inheritedStyleStore :: store where
  "inheritedStyleStore =
     snd (setFolderStyle ''/a/d'' ''toString'' Project True
       (snd (setFolderStyle ''/a'' ''S1'' Project True
          (snd (saveStyle ''S1'' [''warm''] Project True (freshStore ''/repo''))))))"

section \<open>Proofs: rounding and trimming\<close>

lemma Math_round_div:
  assumes "c > 0"
  shows "Math_round (real_of_int t / real c) = (2 * t + int c) div (2 * int c)"
proof -
  have "real_of_int t / real c + 1 / 2 = real_of_int (2 * t + int c) / real_of_int (2 * int c)"
    using assms by (simp add: field_simps)
  then show ?thesis
    unfolding Math_round_def by (simp only: floor_divide_of_int_eq)
qed

lemma Math_round_one': "Math_round (real_of_int d) = d"
  using Math_round_div [of "Suc 0" d] by simp

lemma trimStep_stats [simp]:
  "tool_stats (trimStep d) = tool_stats d"
  "total_invocations (trimStep d) = total_invocations d"
  "server_name (trimStep d) = server_name d"
  "created_at (trimStep d) = created_at d"
  "updated_at (trimStep d) = updated_at d"
  by (simp_all add: trimStep_def)

lemma trimStep_shorter:
  "invocations d \<noteq> [] \<Longrightarrow> length (invocations (trimStep d)) < length (invocations d)"
  by (simp add: trimStep_def removeCount_def)


lemma trim_continue:
  "int (sz d) > m \<Longrightarrow> invocations d \<noteq> [] \<Longrightarrow>
   trimInvocationsForSize sz d m = trimInvocationsForSize sz (trimStep d) m"
  by (subst trimInvocationsForSize.simps) simp

lemma trim_done:
  "\<not> (int (sz d) > m \<and> invocations d \<noteq> []) \<Longrightarrow> trimInvocationsForSize sz d m = d"
  by (subst trimInvocationsForSize.simps) auto

lemma passes_continue:
  "int (sz d) > m \<Longrightarrow> invocations d \<noteq> [] \<Longrightarrow>
   trimPasses sz d m = Suc (trimPasses sz (trimStep d) m)"
  by (subst trimPasses.simps) simp

lemma passes_done:
  "\<not> (int (sz d) > m \<and> invocations d \<noteq> []) \<Longrightarrow> trimPasses sz d m = 0"
  by (subst trimPasses.simps) auto

lemma loop_continue:
  "int (sz d) > m \<Longrightarrow> invocations d \<noteq> [] \<Longrightarrow>
   trimLoop sz d m = trimLoop sz (trimStep d) m"
  by (subst trimLoop.simps) simp

lemma loop_done:
  "\<not> (int (sz d) > m \<and> invocations d \<noteq> []) \<Longrightarrow> trimLoop sz d m = Some d"
  by (subst trimLoop.simps) auto

lemma trim_keeps:
  "trimInvocationsForSize sz d m = d\<lparr>invocations := invocations (trimInvocationsForSize sz d m)\<rparr>"
proof (induction sz d m rule: trimInvocationsForSize.induct)
  case (1 sz d m)
  show ?case
  proof (cases "int (sz d) > m \<and> invocations d \<noteq> []")
    case True
    then have eq: "trimInvocationsForSize sz d m = trimInvocationsForSize sz (trimStep d) m"
      by (simp add: trim_continue)
    from True have "m < int (sz d) \<and> 0 < length (invocations d)" by simp
    from 1 [OF this]
    have "trimInvocationsForSize sz (trimStep d) m =
          (trimStep d)\<lparr>invocations := invocations (trimInvocationsForSize sz (trimStep d) m)\<rparr>" .
    then show ?thesis
      unfolding eq by (simp add: trimStep_def)
  next
    case False
    then show ?thesis
      by (simp add: trim_done)
  qed
qed

lemma trimLoop_total: "trimLoop sz d m = Some (trimInvocationsForSize sz d m)"
proof (induction sz d m rule: trimInvocationsForSize.induct)
  case (1 sz d m)
  show ?case
  proof (cases "int (sz d) > m \<and> invocations d \<noteq> []")
    case True
    then have "m < int (sz d) \<and> 0 < length (invocations d)" by simp
    from 1 [OF this] True show ?thesis
      by (simp add: trim_continue loop_continue)
  next
    case False
    then show ?thesis
      by (simp add: trim_done loop_done)
  qed
qed

lemma trim_stops:
  "int (sz (trimInvocationsForSize sz d m)) \<le> m \<or> invocations (trimInvocationsForSize sz d m) = []"
proof (induction sz d m rule: trimInvocationsForSize.induct)
  case (1 sz d m)
  show ?case
  proof (cases "int (sz d) > m \<and> invocations d \<noteq> []")
    case True
    then have "m < int (sz d) \<and> 0 < length (invocations d)" by simp
    from 1 [OF this] True show ?thesis
      by (simp add: trim_continue)
  next
    case False
    then show ?thesis
      by (auto simp add: trim_done)
  qed
qed

lemma trim_suffix:
  "\<exists>k. invocations (trimInvocationsForSize sz d m) = drop k (invocations d)"
proof (induction sz d m rule: trimInvocationsForSize.induct)
  case (1 sz d m)
  show ?case
  proof (cases "int (sz d) > m \<and> invocations d \<noteq> []")
    case True
    then have "m < int (sz d) \<and> 0 < length (invocations d)" by simp
    from 1 [OF this] obtain k where
      "invocations (trimInvocationsForSize sz (trimStep d) m) = drop k (invocations (trimStep d))" ..
    then have "invocations (trimInvocationsForSize sz d m)
               = drop (k + removeCount (length (invocations d))) (invocations d)"
      using True by (simp add: trim_continue trimStep_def)
    then show ?thesis ..
  next
    case False
    then have "invocations (trimInvocationsForSize sz d m) = drop 0 (invocations d)"
      by (simp add: trim_done)
    then show ?thesis ..
  qed
qed

lemma trimPasses_bound: "trimPasses sz d m \<le> length (invocations d)"
proof (induction sz d m rule: trimPasses.induct)
  case (1 sz d m)
  show ?case
  proof (cases "int (sz d) > m \<and> invocations d \<noteq> []")
    case True
    then have ne: "invocations d \<noteq> []" and c: "m < int (sz d) \<and> 0 < length (invocations d)"
      by simp_all
    from trimStep_shorter [OF ne] 1 [OF c] True show ?thesis
      by (simp add: passes_continue)
  next
    case False
    then show ?thesis
      by (simp add: passes_done)
  qed
qed

lemma trim_is_iterate:
  "trimInvocationsForSize sz d m = (trimStep ^^ trimPasses sz d m) d"
proof (induction sz d m rule: trimInvocationsForSize.induct)
  case (1 sz d m)
  show ?case
  proof (cases "int (sz d) > m \<and> invocations d \<noteq> []")
    case True
    then have "m < int (sz d) \<and> 0 < length (invocations d)" by simp
    from 1 [OF this] True show ?thesis
      by (simp add: trim_continue passes_continue funpow_swap1)
  next
    case False
    then show ?thesis
      by (simp add: trim_done passes_done)
  qed
qed





lemma trim_tool_stats [simp]: "tool_stats (trimInvocationsForSize sz d m) = tool_stats d"
  by (subst trim_keeps) simp

lemma trim_total_invocations [simp]:
  "total_invocations (trimInvocationsForSize sz d m) = total_invocations d"
  by (subst trim_keeps) simp

lemma step_Flush_stats [simp]:
  "tool_stats (data (runQueuedWrite sz ok c)) = tool_stats (data c)"
  "initialized (runQueuedWrite sz ok c) = initialized c"
  by (simp_all add: runQueuedWrite_def persistToDisk_def Let_def)

lemma record_initialized [simp]: "initialized (record_invocation now i c) = initialized c"
  by (simp add: record_invocation_def Let_def split: sum.splits prod.splits)

lemma plain_inherited:
  "plainName name \<Longrightarrow> inheritedMember proto name = None \<or> inheritedMember proto name = Some NotANumber"
  by (auto simp add: plainName_def inheritedMember_def Object_prototype_names_def
        split: option.splits)

lemma plain_lookup:
  assumes "plainName name"
  shows "getProperty proto own name =
           (case own name of
              Some v \<Rightarrow> Own v
            | None \<Rightarrow> (case inheritedMember proto name of
                         Some m \<Rightarrow> Inherited NotANumber
                       | None \<Rightarrow> Undefined))"
  using plain_inherited [OF assms, of proto]
  by (auto simp add: getProperty_def split: option.splits)

lemma update_plain:
  assumes "plainName (tool i)"
  shows "updateToolStats proto i d =
           Inr (d\<lparr>tool_stats := (tool_stats d)(tool i \<mapsto>
                     (case tool_stats d (tool i) of
                        Some e \<Rightarrow> nextStats i e
                      | None \<Rightarrow> firstStats i))\<rparr>, proto)"
  by (simp add: updateToolStats_def Let_def plain_lookup [OF assms] split: option.splits)

lemma update_other:
  "tool i \<noteq> name \<Longrightarrow> updateToolStats proto i d = Inr (d', proto') \<Longrightarrow>
   tool_stats d' name = tool_stats d name"
  by (auto simp add: updateToolStats_def Let_def
        split: if_splits property.splits inherited.splits)

lemma record_other:
  "tool i \<noteq> name \<Longrightarrow>
   tool_stats (data (record_invocation now i c)) name = tool_stats (data c) name"
proof (cases "initialized c")
  case False
  then show ?thesis by (simp add: record_invocation_def)
next
  case True
  assume n: "tool i \<noteq> name"
  let ?d3 = "(data c)\<lparr>invocations := invocations (data c) @ [i],
                       total_invocations := total_invocations (data c) + 1,
                       updated_at := now\<rparr>"
  show ?thesis
  proof (cases "updateToolStats (objectPrototype c) i ?d3")
    case (Inl e)
    with True show ?thesis by (simp add: record_invocation_def Let_def)
  next
    case (Inr r)
    obtain d4 p where r: "r = (d4, p)" by (cases r)
    from update_other [OF n Inr [unfolded r]] have "tool_stats d4 name = tool_stats (data c) name"
      by simp
    with True Inr r show ?thesis by (simp add: record_invocation_def Let_def)
  qed
qed

lemma record_plain:
  assumes "initialized c" "plainName (tool i)"
  shows "tool_stats (data (record_invocation now i c)) (tool i) =
           Some (case tool_stats (data c) (tool i) of
                   Some e \<Rightarrow> nextStats i e
                 | None \<Rightarrow> firstStats i)"
  using assms(1) by (simp add: record_invocation_def Let_def update_plain [OF assms(2)])

lemma next_is:
  "call_count e = k \<Longrightarrow> total_duration_ms e = s \<Longrightarrow>
   entry_is (Some (nextStats i e)) (Suc k) (s + duration_ms i)"
  by (simp add: entry_is_def nextStats_def Let_def)

lemma first_is: "entry_is (Some (firstStats i)) (Suc 0) (duration_ms i)"
  by (simp add: entry_is_def firstStats_def Math_round_one')

lemma record_same:
  assumes "initialized c" "plainName (tool i)" "entry_has (tool_stats (data c) (tool i)) k s"
  shows "entry_is (tool_stats (data (record_invocation now i c)) (tool i))
           (Suc k) (s + duration_ms i)"
proof (cases "tool_stats (data c) (tool i)")
  case None
  with assms(3) have "k = 0" "s = 0" by (simp_all add: entry_has_def)
  with None first_is [of i] show ?thesis by (simp add: record_plain [OF assms(1,2)])
next
  case (Some e)
  with assms(3) have "call_count e = k" "total_duration_ms e = s" by (simp_all add: entry_has_def)
  from next_is [OF this, of i] Some show ?thesis by (simp add: record_plain [OF assms(1,2)])
qed

lemma is_has: "entry_is eo k s \<Longrightarrow> entry_has eo k s"
  by (auto simp add: entry_is_def entry_has_def split: option.splits)

text \<open>
  Along a run the entry of a plain name has the count and total of what was recorded, and
  the rounded mean as soon as something was recorded.
\<close>

lemma run_entry:
  assumes "initialized c" "plainName name"
  shows "(if b then entry_is (tool_stats (data c) name) k s
               else entry_has (tool_stats (data c) name) k s) \<Longrightarrow>
   (if b \<or> recorded name evs \<noteq> []
    then entry_is (tool_stats (data (run sz evs c)) name)
           (k + length (recorded name evs)) (s + sum_list (map duration_ms (recorded name evs)))
    else entry_has (tool_stats (data (run sz evs c)) name) k s)"
  using assms(1)
proof (induction evs arbitrary: c k s b)
  case Nil
  then show ?case by simp
next
  case (Cons e es)
  show ?case
  proof (cases e)
    case (Record now i)
    show ?thesis
    proof (cases "tool i = name")
      case True
      have h: "entry_has (tool_stats (data c) (tool i)) k s"
        using Cons.prems(1) True by (auto simp add: is_has split: if_splits)
      have p: "plainName (tool i)" using True assms(2) by simp
      have "entry_is (tool_stats (data (record_invocation now i c)) name) (Suc k) (s + duration_ms i)"
        using record_same [OF Cons.prems(2) p h, of now] True by simp
      then have "if True then entry_is (tool_stats (data (record_invocation now i c)) name)
                                 (Suc k) (s + duration_ms i)
                 else entry_has (tool_stats (data (record_invocation now i c)) name)
                                 (Suc k) (s + duration_ms i)"
        by simp
      from Cons.IH [OF this] Cons.prems(2) True Record show ?thesis
        by (simp add: add.assoc)
    next
      case False
      have "if b then entry_is (tool_stats (data (record_invocation now i c)) name) k s
            else entry_has (tool_stats (data (record_invocation now i c)) name) k s"
        using Cons.prems(1) False by (simp add: record_other)
      from Cons.IH [OF this] Cons.prems(2) False Record show ?thesis
        by simp
    qed
  next
    case (Flush ok)
    have "if b then entry_is (tool_stats (data (runQueuedWrite sz ok c)) name) k s
          else entry_has (tool_stats (data (runQueuedWrite sz ok c)) name) k s"
      using Cons.prems(1) by simp
    from Cons.IH [OF this] Cons.prems(2) Flush show ?thesis
      by simp
  qed
qed

lemma next_sound:
  "call_count e = success_count e + error_count e \<Longrightarrow> entry_sound (Some (nextStats i e))"
  by (simp add: entry_sound_def nextStats_def Let_def)

lemma first_sound: "entry_sound (Some (firstStats i))"
  by (simp add: entry_sound_def firstStats_def Math_round_one')

lemma step_sound:
  assumes "plainName name" "entry_sound (tool_stats (data c) name)"
  shows "entry_sound (tool_stats (data (step sz e c)) name)"
proof (cases e)
  case (Record now i)
  show ?thesis
  proof (cases "tool i = name")
    case False
    with assms(2) Record show ?thesis by (simp add: record_other)
  next
    case True
    show ?thesis
    proof (cases "initialized c")
      case False
      with assms(2) Record show ?thesis by (simp add: record_invocation_def)
    next
      case i: True
      have p: "plainName (tool i)" using True assms(1) by simp
      have r: "tool_stats (data (record_invocation now i c)) name =
                 Some (case tool_stats (data c) name of
                         Some e \<Rightarrow> nextStats i e
                       | None \<Rightarrow> firstStats i)"
        using record_plain [OF i p, of now] True by simp
      show ?thesis
      proof (cases "tool_stats (data c) name")
        case None
        with Record first_sound [of i] show ?thesis
          by (simp add: r)
      next
        case (Some e0)
        with assms(2) have "call_count e0 = success_count e0 + error_count e0"
          by (simp add: entry_sound_def)
        from next_sound [OF this, of i] Some Record show ?thesis
          by (simp add: r)
      qed
    qed
  qed
next
  case (Flush ok)
  with assms(2) show ?thesis by simp
qed

text \<open>
  For a plain name both invariants of an entry are kept by every run: the counts add up
  and the mean is the rounded quotient, after the first invocation and after each later one.
\<close>

lemma stats_invariant_plain_names:
  "plainName name \<Longrightarrow> entry_sound (tool_stats (data c) name) \<Longrightarrow>
   entry_sound (tool_stats (data (run sz evs c)) name)"
  by (induction evs arbitrary: c) (simp_all add: step_sound del: step.simps)

lemma exampleCollector_simps:
  "initialized exampleCollector"
  "tool_stats (data exampleCollector) = Map.empty"
  "objectPrototype exampleCollector = None"
  "thrown exampleCollector = []"
  "total_invocations (data exampleCollector) = 0"
  by (simp_all add: exampleCollector_def initialize_def newMetricsCollector_def Let_def
        initializeMetricsFile_def saveMetrics_def loadMetrics_def createEmptyMetricsData_def)

lemma restartedCollector_simps:
  "initialized restartedCollector"
  "data restartedCollector = exampleLedger 0"
  by (simp_all add: restartedCollector_def initialize_def newMetricsCollector_def Let_def
        initializeMetricsFile_def loadMetrics_def)

lemma exampleLedger_simps:
  "invocations (exampleLedger n) = map (\<lambda>k. exampleInvocation ''my_tool'' (int k) True) [0..<n]"
  "total_invocations (exampleLedger n) = 100"
  "tool_stats (exampleLedger n) ''my_tool'' = Some \<lparr>call_count = 100, total_duration_ms = 5000,
                        avg_duration_ms = 50, success_count = 95, error_count = 5,
                        last_used = ''2024-01-01T00:00:00.000Z''\<rparr>"
  by (simp_all add: exampleLedger_def)

lemma plain_examples: "plainName ''search''" "plainName ''my_tool''"
  by (simp_all add: plainName_def Object_prototype_names_def Object_prototype_methods_def)

text \<open>
  Claim C1, as the code has it. A collector is initialised; the ledger it loaded holds for
  a tool name, one that \<open>Object.prototype\<close> does not answer for, an entry with count \<open>k0\<close>
  and total \<open>s0\<close> (or none: 0 and 0), since the statistics are kept for the lifetime of
  the ledger and not of the process. After any run of \<open>record\<close> calls and queued flushes
  in which the invocations recorded for that name have the durations \<open>ds\<close> (at least
  one), the entry for the name has \<open>call_count = k0 + length ds\<close>,
  \<open>total_duration_ms = s0 + sum ds\<close> and \<open>avg_duration_ms\<close> the rounded quotient of the
  two; one more \<open>trimInvocationsForSize\<close>, with any measure and any limit, leaves the
  entry as it is.
\<close>
theorem tool_stats_totals:
  assumes "c = initialize now io_ok c0"
    and "plainName name"
    and "entry_has (tool_stats (data c) name) k0 s0"
    and "ds = map duration_ms (recorded name evs)"
    and "ds \<noteq> []"
  shows "\<exists>st. tool_stats (data (run jsonLength evs c)) name = Some st \<and>
              call_count st = k0 + length ds \<and>
              total_duration_ms st = s0 + sum_list ds \<and>
              avg_duration_ms st
                = Math_round (real_of_int (s0 + sum_list ds) / real (k0 + length ds)) \<and>
              tool_stats (trimInvocationsForSize len (data (run jsonLength evs c)) limit) name
                = Some st"
proof -
  have i: "initialized c" using assms(1) by (simp add: initialize_def Let_def)
  have "if False then entry_is (tool_stats (data c) name) k0 s0
        else entry_has (tool_stats (data c) name) k0 s0"
    using assms(3) by simp
  from run_entry [OF i assms(2) this, of evs jsonLength]
  have "entry_is (tool_stats (data (run jsonLength evs c)) name)
          (k0 + length ds) (s0 + sum_list ds)"
    using assms(4,5) by simp
  then show ?thesis
    using assms(5) by (auto simp add: entry_is_def split: option.splits)
qed

theorem tool_stats_totals_witness:
  "plainName ''my_tool'' \<and>
   entry_has (tool_stats (data restartedCollector) ''my_tool'') 100 5000 \<and>
   (\<exists>st. tool_stats (data (run exampleLength restartEvents restartedCollector)) ''my_tool'' = Some st \<and>
         call_count st = 102 \<and> total_duration_ms st = 5103 \<and> avg_duration_ms st = 50 \<and>
         tool_stats (trimInvocationsForSize exampleLength
                       (data (run exampleLength restartEvents restartedCollector)) 0) ''my_tool''
           = Some st) \<and>
   plainName ''search'' \<and>
   entry_has (tool_stats (data exampleCollector) ''search'') 0 0 \<and>
   (\<exists>st. tool_stats (data (run exampleLength exampleEvents exampleCollector)) ''search'' = Some st \<and>
         call_count st = 3 \<and> total_duration_ms st = 602 \<and> avg_duration_ms st = 201)"
proof -
  have r1: "restartedCollector = initialize ''2024-01-02T00:00:00.000Z'' True
       (newMetricsCollector ''test'' 1048576 ''2024-01-02T00:00:00.000Z''
          (\<lambda>name. if name = ''test'' then Valid (exampleLedger 0) else Missing))"
    by (simp add: restartedCollector_def)
  have r2: "entry_has (tool_stats (data restartedCollector) ''my_tool'') 100 5000"
    by (simp add: restartedCollector_simps exampleLedger_simps entry_has_def)
  have r3: "[51, 52] = map duration_ms (recorded ''my_tool'' restartEvents)"
    by (simp add: restartEvents_def exampleInvocation_def)
  have r4: "[51, 52] \<noteq> ([] :: int list)" by simp
  from tool_stats_totals [OF r1 plain_examples(2) r2 r3 r4, of exampleLength exampleLength 0]
  obtain st where
    st: "tool_stats (data (run exampleLength restartEvents restartedCollector)) ''my_tool'' = Some st"
    and n: "call_count st = 100 + length [51, 52 :: int]"
    and t: "total_duration_ms st = 5000 + sum_list [51, 52]"
    and a: "avg_duration_ms st
            = Math_round (real_of_int (5000 + sum_list [51, 52]) / real (100 + length [51, 52 :: int]))"
    and k: "tool_stats (trimInvocationsForSize exampleLength
                      (data (run exampleLength restartEvents restartedCollector)) 0) ''my_tool''
            = Some st"
    by blast
  have "call_count st = 102" using n by simp
  moreover have "total_duration_ms st = 5103" using t by simp
  moreover have "avg_duration_ms st = 50" using a by (simp add: Math_round_def)
  ultimately have A: "\<exists>st. tool_stats (data (run exampleLength restartEvents restartedCollector)) ''my_tool'' = Some st \<and>
         call_count st = 102 \<and> total_duration_ms st = 5103 \<and> avg_duration_ms st = 50 \<and>
         tool_stats (trimInvocationsForSize exampleLength
                       (data (run exampleLength restartEvents restartedCollector)) 0) ''my_tool''
           = Some st"
    using st k by blast
  have h1: "exampleCollector = initialize ''2024-01-01T00:00:00.000Z'' True
       (newMetricsCollector ''test'' 1048576 ''2024-01-01T00:00:00.000Z'' (\<lambda>name. Missing))"
    by (simp add: exampleCollector_def)
  have h2: "entry_has (tool_stats (data exampleCollector) ''search'') 0 0"
    by (simp add: exampleCollector_simps entry_has_def)
  have h3: "[100, 200, 302] = map duration_ms (recorded ''search'' exampleEvents)"
    by (simp add: exampleEvents_def exampleInvocation_def)
  have h4: "[100, 200, 302] \<noteq> ([] :: int list)" by simp
  from tool_stats_totals [OF h1 plain_examples(1) h2 h3 h4, of exampleLength exampleLength 0]
  obtain st' where
    st': "tool_stats (data (run exampleLength exampleEvents exampleCollector)) ''search'' = Some st'"
    and n': "call_count st' = 0 + length [100, 200, 302 :: int]"
    and t': "total_duration_ms st' = 0 + sum_list [100, 200, 302]"
    and a': "avg_duration_ms st'
            = Math_round (real_of_int (0 + sum_list [100, 200, 302]) / real (0 + length [100, 200, 302 :: int]))"
    by blast
  have "call_count st' = 3" using n' by simp
  moreover have "total_duration_ms st' = 602" using t' by simp
  moreover have "avg_duration_ms st' = 201" using a' by (simp add: Math_round_def)
  ultimately have B: "\<exists>st. tool_stats (data (run exampleLength exampleEvents exampleCollector)) ''search'' = Some st \<and>
         call_count st = 3 \<and> total_duration_ms st = 602 \<and> avg_duration_ms st = 201"
    using st' by blast
  from A B r2 h2 plain_examples show ?thesis by blast
qed

text \<open>
  Claim C1 as it is written fails on a restart: a collector initialised from a ledger that
  holds 100 calls of \<open>my_tool\<close> with a total of 5000 ms records one invocation of 51 ms,
  and the entry then counts 101 calls and 5051 ms, not 1 and 51.
\<close>
theorem tool_stats_totals_restart:
  "initialized restartedCollector \<and>
   map duration_ms (recorded ''my_tool'' [Record ''t1'' (exampleInvocation ''my_tool'' 51 True)]) = [51] \<and>
   map_option call_count
     (tool_stats (data (run exampleLength [Record ''t1'' (exampleInvocation ''my_tool'' 51 True)]
                          restartedCollector)) ''my_tool'') = Some 101 \<and>
   map_option total_duration_ms
     (tool_stats (data (run exampleLength [Record ''t1'' (exampleInvocation ''my_tool'' 51 True)]
                          restartedCollector)) ''my_tool'') = Some 5051 \<and>
   map_option call_count
     (tool_stats (data (run exampleLength [Record ''t1'' (exampleInvocation ''my_tool'' 51 True)]
                          restartedCollector)) ''my_tool'')
     \<noteq> Some (length (recorded ''my_tool'' [Record ''t1'' (exampleInvocation ''my_tool'' 51 True)]))"
proof -
  have t: "tool (exampleInvocation ''my_tool'' 51 True) = ''my_tool''"
    and d: "duration_ms (exampleInvocation ''my_tool'' 51 True) = 51"
    by (simp_all add: exampleInvocation_def)
  have p: "plainName (tool (exampleInvocation ''my_tool'' 51 True))"
    using plain_examples(2) t by simp
  have "tool_stats (data (record_invocation ''t1'' (exampleInvocation ''my_tool'' 51 True)
                            restartedCollector)) ''my_tool''
        = Some (nextStats (exampleInvocation ''my_tool'' 51 True)
                  \<lparr>call_count = 100, total_duration_ms = 5000, avg_duration_ms = 50,
                   success_count = 95, error_count = 5,
                   last_used = ''2024-01-01T00:00:00.000Z''\<rparr>)"
    using record_plain [OF restartedCollector_simps(1) p, of "''t1''"]
    by (simp add: t restartedCollector_simps exampleLedger_simps)
  then show ?thesis
    by (simp add: restartedCollector_simps t d nextStats_def Let_def)
qed

text \<open>
  Claim C2. \<open>trimInvocationsForSize\<close> is the loop that, as long as the serialised
  document is longer than the limit and there are invocations left, drops the oldest
  \<open>max(1, floor(0.25 * count))\<close> of them and measures again; what it returns is within
  the limit or has no invocations; it keeps a suffix of the invocations and leaves
  \<open>tool_stats\<close> and \<open>total_invocations\<close> alone; \<open>persistToDisk\<close> applies it to the
  collector's document with the configured maximum.
\<close>
theorem flush_trim:
  "trimInvocationsForSize jsonLength d limit =
     (if int (jsonLength d) > limit \<and> invocations d \<noteq> []
      then trimInvocationsForSize jsonLength
             (d\<lparr>invocations := drop (max 1 (length (invocations d) div 4)) (invocations d)\<rparr>)
             limit
      else d) \<and>
   (int (jsonLength (trimInvocationsForSize jsonLength d limit)) \<le> limit \<or>
    invocations (trimInvocationsForSize jsonLength d limit) = []) \<and>
   (\<exists>k. invocations (trimInvocationsForSize jsonLength d limit) = drop k (invocations d)) \<and>
   tool_stats (trimInvocationsForSize jsonLength d limit) = tool_stats d \<and>
   total_invocations (trimInvocationsForSize jsonLength d limit) = total_invocations d \<and>
   data (persistToDisk jsonLength write_ok c)
     = trimInvocationsForSize jsonLength (data c) (maxSizeBytes c)"
proof -
  have "trimInvocationsForSize jsonLength d limit =
     (if int (jsonLength d) > limit \<and> invocations d \<noteq> []
      then trimInvocationsForSize jsonLength
             (d\<lparr>invocations := drop (max 1 (length (invocations d) div 4)) (invocations d)\<rparr>)
             limit
      else d)"
    by (subst trimInvocationsForSize.simps) (simp add: trimStep_def removeCount_def)
  moreover have "data (persistToDisk jsonLength write_ok c)
     = trimInvocationsForSize jsonLength (data c) (maxSizeBytes c)"
    by (simp add: persistToDisk_def Let_def)
  ultimately show ?thesis
    by (intro conjI trim_stops trim_suffix trim_tool_stats trim_total_invocations)
qed

theorem flush_trim_witness:
  "invocations (trimInvocationsForSize exampleLength (exampleLedger 8) 100)
     = drop 3 (invocations (exampleLedger 8)) \<and>
   int (exampleLength (trimInvocationsForSize exampleLength (exampleLedger 8) 100)) \<le> 100 \<and>
   tool_stats (trimInvocationsForSize exampleLength (exampleLedger 8) 100)
     = tool_stats (exampleLedger 8) \<and>
   total_invocations (trimInvocationsForSize exampleLength (exampleLedger 8) 100) = 100"
proof -
  have e: "invocations (trimInvocationsForSize exampleLength (exampleLedger 8) 100)
           = drop 3 (invocations (exampleLedger 8))"
    by code_simp
  have ne: "invocations (trimInvocationsForSize exampleLength (exampleLedger 8) 100) \<noteq> []"
    unfolding e by (simp add: exampleLedger_simps)
  note t = flush_trim [of exampleLength "exampleLedger 8" 100]
  have "int (exampleLength (trimInvocationsForSize exampleLength (exampleLedger 8) 100)) \<le> 100"
    using t [THEN conjunct2, THEN conjunct1] ne by blast
  moreover have "tool_stats (trimInvocationsForSize exampleLength (exampleLedger 8) 100)
     = tool_stats (exampleLedger 8)"
    by (rule t [THEN conjunct2, THEN conjunct2, THEN conjunct2, THEN conjunct1])
  moreover have "total_invocations (trimInvocationsForSize exampleLength (exampleLedger 8) 100) = 100"
    using t [THEN conjunct2, THEN conjunct2, THEN conjunct2, THEN conjunct2, THEN conjunct1]
    by (simp add: exampleLedger_simps)
  ultimately show ?thesis using e by blast
qed

text \<open>
  Claim C9. The loop of \<open>trimInvocationsForSize\<close> returns for every document, measure
  and limit: the remove count is at least one, a pass over a non-empty sequence makes it
  strictly shorter, and the number of passes is at most the number of invocations.
\<close>
theorem trim_terminates:
  "trimLoop jsonLength d limit = Some (trimInvocationsForSize jsonLength d limit) \<and>
   1 \<le> removeCount n \<and>
   (invocations d \<noteq> [] \<longrightarrow> length (invocations (trimStep d)) < length (invocations d)) \<and>
   trimPasses jsonLength d limit \<le> length (invocations d) \<and>
   trimInvocationsForSize jsonLength d limit = (trimStep ^^ trimPasses jsonLength d limit) d"
  using trimLoop_total [of jsonLength d limit] trimStep_shorter [of d]
    trimPasses_bound [of jsonLength d limit] trim_is_iterate [of jsonLength d limit]
  by (simp add: removeCount_def)

theorem trim_terminates_witness:
  "invocations (exampleLedger 3) \<noteq> [] \<and>
   length (invocations (trimStep (exampleLedger 3))) < length (invocations (exampleLedger 3)) \<and>
   trimLoop exampleLength (exampleLedger 3) 0
     = Some (trimInvocationsForSize exampleLength (exampleLedger 3) 0) \<and>
   trimPasses exampleLength (exampleLedger 3) 0 \<le> 3"
  using trim_terminates [of exampleLength "exampleLedger 3" 0 3]
  by (simp add: exampleLedger_simps)

text \<open>
  Claim C6, evaluated where it fails. A tool name that \<open>Object.prototype\<close> answers for is
  found by \<open>this.data.tool_stats[toolName]\<close> although the ledger has no entry for it.
  Recording \<open>constructor\<close> on a fresh collector counts the invocation and takes the branch
  of an existing entry on the built-in function \<open>Object\<close>: no entry is made, and what the
  name reads afterwards is that function, not statistics whose counts add up. Recording
  \<open>__proto__\<close> writes the fields to \<open>Object.prototype\<close> itself, after which recording
  \<open>last_used\<close> finds a string and throws. (For the other names,
  \<open>stats_invariant_plain_names\<close> above gives what the claim describes.)
\<close>
theorem stats_inherited_name:
  "initialized exampleCollector \<and>
   tool_stats (data exampleCollector) ''constructor'' = None \<and>
   total_invocations
     (data (record_invocation ''t1'' (exampleInvocation ''constructor'' 100 True) exampleCollector))
     = 1 \<and>
   tool_stats
     (data (record_invocation ''t1'' (exampleInvocation ''constructor'' 100 True) exampleCollector))
     ''constructor'' = None \<and>
   getProperty
     (objectPrototype
        (record_invocation ''t1'' (exampleInvocation ''constructor'' 100 True) exampleCollector))
     (tool_stats
        (data (record_invocation ''t1'' (exampleInvocation ''constructor'' 100 True) exampleCollector)))
     ''constructor'' = Inherited (Function ''Object'') \<and>
   tool_stats (data (run exampleLength inheritedEvents exampleCollector)) ''__proto__'' = None \<and>
   tool_stats (data (run exampleLength inheritedEvents exampleCollector)) ''last_used'' = None \<and>
   total_invocations (data (run exampleLength inheritedEvents exampleCollector)) = 2 \<and>
   thrown (run exampleLength inheritedEvents exampleCollector)
     = [TypeError ''Cannot create property call_count on string'']"
  by (simp add: exampleCollector_simps inheritedEvents_def record_invocation_def Let_def
        updateToolStats_def getProperty_def inheritedMember_def Object_prototype_methods_def
        exampleInvocation_def writeThroughProto_def)

section \<open>Proofs: issue reports and use before initialisation\<close>

lemma report_initialized:
  assumes "issueInitialized c"
  shows "\<exists>issue. report ts rnd now params c =
           (Inr issue,
            c\<lparr>issueData := (issueData c)\<lparr>issues := take MAX_ISSUES (issue # issues (issueData c)),
                                           total_issues := total_issues (issueData c) + 1,
                                           issues_updated_at := now\<rparr>,
              issueWriteQueue := issueWriteQueue c + 1\<rparr>) \<and>
           issue_id issue = generateIssueId ts rnd \<and> title issue = title params"
  using assms by (simp add: report_def Let_def)

lemma report_keeps_initialized:
  "issueInitialized (snd (report ts rnd now params c)) = issueInitialized c"
  by (simp add: report_def Let_def)

lemma report_length:
  "issueInitialized c \<Longrightarrow> length (issues (issueData (snd (report ts rnd now params c)))) \<le> MAX_ISSUES"
  by (simp add: report_def Let_def)

lemma reportAll_length:
  "issueInitialized c \<Longrightarrow> c' \<in> set (reportAll calls c) \<Longrightarrow>
   length (issues (issueData c')) \<le> MAX_ISSUES"
proof (induction calls arbitrary: c)
  case Nil
  then show ?case by simp
next
  case (Cons call calls)
  obtain ts rnd now params where call: "call = (ts, rnd, now, params)"
    by (cases call) auto
  let ?c1 = "snd (report ts rnd now params c)"
  have i1: "issueInitialized ?c1" using Cons.prems(1) by (simp add: report_keeps_initialized)
  from Cons.prems(2) call have "c' = ?c1 \<or> c' \<in> set (reportAll calls ?c1)"
    by (simp add: Let_def)
  then show ?case
  proof
    assume "c' = ?c1"
    then show ?thesis using report_length [OF Cons.prems(1)] by simp
  next
    assume "c' \<in> set (reportAll calls ?c1)"
    from Cons.IH [OF i1 this] show ?thesis .
  qed
qed

text \<open>
  Claim C3. A \<open>report\<close> on an initialised collector returns the new issue, puts it at
  the head of the sequence and keeps the first 100 entries, so that the length is at most
  100 after the call and after every call of any series of calls; \<open>total_issues\<close> grows
  by one in every case. From fewer than 100 issues nothing is dropped; from exactly 100
  the last element, the oldest, is the one dropped.
\<close>
theorem issue_cap:
  assumes "issueInitialized c"
    and "r = report timestamp36 random36 now params c"
  shows "\<exists>issue. fst r = Inr issue \<and>
           issues (issueData (snd r)) = take 100 (issue # issues (issueData c)) \<and>
           length (issues (issueData (snd r))) \<le> 100 \<and>
           hd (issues (issueData (snd r))) = issue \<and>
           total_issues (issueData (snd r)) = total_issues (issueData c) + 1 \<and>
           (length (issues (issueData c)) < 100 \<longrightarrow>
              issues (issueData (snd r)) = issue # issues (issueData c)) \<and>
           (length (issues (issueData c)) = 100 \<longrightarrow>
              issues (issueData (snd r)) = issue # butlast (issues (issueData c))) \<and>
           (\<forall>c' \<in> set (reportAll calls c). length (issues (issueData c')) \<le> 100)"
proof -
  from report_initialized [OF assms(1), of timestamp36 random36 now params]
  obtain issue where
    r: "r = (Inr issue,
            c\<lparr>issueData := (issueData c)\<lparr>issues := take MAX_ISSUES (issue # issues (issueData c)),
                                           total_issues := total_issues (issueData c) + 1,
                                           issues_updated_at := now\<rparr>,
              issueWriteQueue := issueWriteQueue c + 1\<rparr>)"
    using assms(2) by auto
  have a: "take 100 (issue # xs) = issue # xs" if "length xs < 100" for xs :: "IssueReport list"
    using that by simp
  have b: "take 100 (issue # xs) = issue # butlast xs" if "length xs = 100" for xs :: "IssueReport list"
    using that by (simp add: take_Cons' butlast_conv_take)
  have seq: "\<forall>c' \<in> set (reportAll calls c). length (issues (issueData c')) \<le> 100"
    using reportAll_length [OF assms(1)] by (simp add: MAX_ISSUES_def)
  show ?thesis
    using a b seq by (intro exI [of _ issue]) (simp add: r MAX_ISSUES_def take_Cons')
qed

lemma exampleIssueCollector_simps:
  "issueInitialized (exampleIssueCollector n)"
  "issues (issueData (exampleIssueCollector n)) = map exampleIssue (rev [0..<n])"
  "total_issues (issueData (exampleIssueCollector n)) = n"
  by (simp_all add: exampleIssueCollector_def initializeIssues_def newIssueCollector_def Let_def
        initializeIssuesFile_def loadIssues_def)

theorem issue_cap_witness:
  "issueInitialized (exampleIssueCollector 100) \<and>
   length (issues (issueData (exampleIssueCollector 100))) = 100 \<and>
   last (issues (issueData (exampleIssueCollector 100))) = exampleIssue 0 \<and>
   (\<exists>issue. fst (report ''lq2x'' ''0.4fzyo82m'' ''t1'' exampleParams (exampleIssueCollector 100))
              = Inr issue \<and>
      issues (issueData (snd (report ''lq2x'' ''0.4fzyo82m'' ''t1'' exampleParams
                                 (exampleIssueCollector 100))))
        = issue # butlast (issues (issueData (exampleIssueCollector 100))) \<and>
      length (issues (issueData (snd (report ''lq2x'' ''0.4fzyo82m'' ''t1'' exampleParams
                                 (exampleIssueCollector 100))))) \<le> 100 \<and>
      total_issues (issueData (snd (report ''lq2x'' ''0.4fzyo82m'' ''t1'' exampleParams
                                 (exampleIssueCollector 100)))) = 101)"
proof -
  let ?c = "exampleIssueCollector 100"
  let ?r = "report ''lq2x'' ''0.4fzyo82m'' ''t1'' exampleParams ?c"
  have i: "issueInitialized ?c" by (simp add: exampleIssueCollector_simps)
  have l: "length (issues (issueData ?c)) = 100" by (simp add: exampleIssueCollector_simps)
  have o: "last (issues (issueData ?c)) = exampleIssue 0"
    by (simp add: exampleIssueCollector_simps last_map last_rev)
  from issue_cap [OF i refl, of "''lq2x''" "''0.4fzyo82m''" "''t1''" exampleParams "[]"]
  obtain issue where
    "fst ?r = Inr issue"
    "length (issues (issueData (snd ?r))) \<le> 100"
    "total_issues (issueData (snd ?r)) = total_issues (issueData ?c) + 1"
    "length (issues (issueData ?c)) = 100 \<longrightarrow>
       issues (issueData (snd ?r)) = issue # butlast (issues (issueData ?c))"
    by blast
  with i l o show ?thesis
    by (intro conjI exI [of _ issue]) (simp_all add: exampleIssueCollector_simps)
qed

text \<open>
  Claim C7. Before \<open>initialize\<close> has run, \<open>MetricsCollector.record\<close> changes nothing
  but the console, where it writes one line: the document, the write queue and the files
  are as they were. Before \<open>initialize\<close> has run, \<open>IssueCollector.report\<close> throws
  \<open>Error("IssueCollector not initialized")\<close> and leaves the collector as it was.
\<close>
theorem uninitialized_use:
  assumes "\<not> initialized c" and "\<not> issueInitialized ic"
  shows "record_invocation now invocation c
           = c\<lparr>console := console c @ [''MetricsCollector not initialized, skipping record'']\<rparr> \<and>
         data (record_invocation now invocation c) = data c \<and>
         writeQueue (record_invocation now invocation c) = writeQueue c \<and>
         metricsFiles (record_invocation now invocation c) = metricsFiles c \<and>
         report timestamp36 random36 now' params ic
           = (Inl (Error ''IssueCollector not initialized''), ic)"
  using assms by (simp add: record_invocation_def report_def)

theorem uninitialized_use_witness:
  "\<not> initialized (newMetricsCollector ''test'' 1048576 ''t0'' (\<lambda>name. Missing)) \<and>
   \<not> issueInitialized (newIssueCollector ''test'' ''t0'' (\<lambda>name. Missing)) \<and>
   data (record_invocation ''t1'' (exampleInvocation ''search'' 100 True)
           (newMetricsCollector ''test'' 1048576 ''t0'' (\<lambda>name. Missing)))
     = createEmptyMetricsData ''test'' ''t0'' \<and>
   writeQueue (record_invocation ''t1'' (exampleInvocation ''search'' 100 True)
           (newMetricsCollector ''test'' 1048576 ''t0'' (\<lambda>name. Missing))) = 0 \<and>
   report ''lq2x'' ''0.4fzyo82m'' ''t1'' exampleParams (newIssueCollector ''test'' ''t0'' (\<lambda>name. Missing))
     = (Inl (Error ''IssueCollector not initialized''),
        newIssueCollector ''test'' ''t0'' (\<lambda>name. Missing))"
proof -
  have a: "\<not> initialized (newMetricsCollector ''test'' 1048576 ''t0'' (\<lambda>name. Missing))"
    by (simp add: newMetricsCollector_def)
  have b: "\<not> issueInitialized (newIssueCollector ''test'' ''t0'' (\<lambda>name. Missing))"
    by (simp add: newIssueCollector_def)
  from uninitialized_use [OF a b, of "''t1''" "exampleInvocation ''search'' 100 True"
      "''lq2x''" "''0.4fzyo82m''" "''t1''" exampleParams] a b
  show ?thesis by (simp add: newMetricsCollector_def)
qed

section \<open>Proofs: folder resolution and merging\<close>

lemma split_slash_nonempty [simp]: "split_slash p \<noteq> []"
  by (cases p) simp_all

lemma join_slash_cons_char: "join_slash ((c # w) # rest) = c # join_slash (w # rest)"
  by (cases rest) simp_all

lemma join_slash_nil_cons: "rest \<noteq> [] \<Longrightarrow> join_slash ([] # rest) = CHR ''/'' # join_slash rest"
  by (cases rest) simp_all

lemma upt_0_Suc: "[0..<Suc n] = 0 # map Suc [0..<n]"
  by (simp add: upt_conv_Cons map_Suc_upt del: upt_Suc)

lemma slashPrefixes_Nil [simp]: "slashPrefixes [] = []"
  by (simp add: slashPrefixes_def)

lemma slashPrefixes_Cons:
  "slashPrefixes (c # cs) = (if c = CHR ''/'' then [[]] else []) @ map ((#) c) (slashPrefixes cs)"
  by (simp add: slashPrefixes_def upt_0_Suc filter_map comp_def del: upt_Suc)

lemma parentPaths_slash:
  assumes "S \<noteq> []"
  shows "parentPaths ([] # S) = [] # map ((#) CHR ''/'') (parentPaths S)"
proof -
  obtain n where n: "length S = Suc n" using assms by (cases S) auto
  have "parentPaths ([] # S) = map (\<lambda>j. join_slash (take (Suc j) ([] # S))) (0 # map Suc [0..<n])"
    by (simp add: parentPaths_def n upt_0_Suc del: upt_Suc)
  also have "\<dots> = [] # map (\<lambda>k. join_slash ([] # take (Suc k) S)) [0..<n]"
    by (simp add: comp_def)
  also have "map (\<lambda>k. join_slash ([] # take (Suc k) S)) [0..<n]
             = map (\<lambda>k. CHR ''/'' # join_slash (take (Suc k) S)) [0..<n]"
    using assms by (intro map_cong refl join_slash_nil_cons) (cases S, simp_all)
  finally show ?thesis
    by (simp add: parentPaths_def n comp_def)
qed

lemma parentPaths_char:
  "parentPaths ((c # w) # ws) = map ((#) c) (parentPaths (w # ws))"
  by (simp add: parentPaths_def join_slash_cons_char comp_def)

lemma parentPaths_split: "parentPaths (split_slash p) = slashPrefixes p"
proof (induction p)
  case Nil
  then show ?case by (simp add: parentPaths_def)
next
  case (Cons c cs)
  show ?case
  proof (cases "c = CHR ''/''")
    case True
    then show ?thesis
      using Cons.IH by (simp add: parentPaths_slash slashPrefixes_Cons)
  next
    case False
    obtain w ws where S: "split_slash cs = w # ws"
      using split_slash_nonempty [of cs] by (cases "split_slash cs") auto
    from False S Cons.IH show ?thesis
      by (simp add: parentPaths_char slashPrefixes_Cons)
  qed
qed

lemma parentWalk_firstMatch:
  "n \<le> length parts - 1 \<Longrightarrow>
   parentWalk proto config parts n = firstMatch proto config (rev (take n (parentPaths parts)))"
proof (induction n)
  case 0
  then show ?case by simp
next
  case (Suc n)
  then have n: "n < length parts - 1" by simp
  then have "take (Suc n) (parentPaths parts)
             = take n (parentPaths parts) @ [join_slash (take (Suc n) parts)]"
    by (simp add: take_Suc_conv_app_nth parentPaths_def)
  with Suc show ?case
    by (simp add: Let_def split: option.splits)
qed

lemma resolveFolder_firstMatch:
  "resolveFolder proto config folderPath =
     firstMatch proto config (stripTrailingSlashes folderPath # ancestorDirs (stripTrailingSlashes folderPath))"
proof -
  let ?np = "stripTrailingSlashes folderPath"
  have "parentWalk proto config (split_slash ?np) (length (split_slash ?np) - 1)
        = firstMatch proto config (rev (parentPaths (split_slash ?np)))"
    using parentWalk_firstMatch [of "length (split_slash ?np) - 1" "split_slash ?np" proto config]
    by (simp add: parentPaths_def)
  then show ?thesis
    by (simp add: resolveFolder_def Let_def ancestorDirs_def parentPaths_split slashPrefixes_def
             split: option.splits)
qed

lemma firstMatch_Some_iff:
  "firstMatch proto config ps = Some m \<longleftrightarrow>
     (\<exists>i<length ps. matchAt proto config (ps ! i) = Some m \<and> (\<forall>j<i. matchAt proto config (ps ! j) = None))"
proof (induction ps)
  case Nil
  then show ?case by simp
next
  case (Cons p ps)
  show ?case
  proof (cases "matchAt proto config p")
    case None
    have "(\<exists>i<length (p # ps). matchAt proto config ((p # ps) ! i) = Some m \<and>
              (\<forall>j<i. matchAt proto config ((p # ps) ! j) = None))
          \<longleftrightarrow> (\<exists>i<length ps. matchAt proto config (ps ! i) = Some m \<and>
              (\<forall>j<i. matchAt proto config (ps ! j) = None))" (is "?L \<longleftrightarrow> ?R")
    proof
      assume ?L
      then obtain i where i: "i < length (p # ps)" "matchAt proto config ((p # ps) ! i) = Some m"
        "\<forall>j<i. matchAt proto config ((p # ps) ! j) = None" by blast
      with None obtain k where k: "i = Suc k" by (cases i) auto
      have "\<forall>j<k. matchAt proto config (ps ! j) = None"
      proof (intro allI impI)
        fix j assume "j < k"
        then have "Suc j < i" using k by simp
        with i(3) have "matchAt proto config ((p # ps) ! Suc j) = None" by blast
        then show "matchAt proto config (ps ! j) = None" by simp
      qed
      with i k show ?R by auto
    next
      assume ?R
      then obtain k where k: "k < length ps" "matchAt proto config (ps ! k) = Some m"
        "\<forall>j<k. matchAt proto config (ps ! j) = None" by blast
      have "\<forall>j<Suc k. matchAt proto config ((p # ps) ! j) = None"
      proof (intro allI impI)
        fix j assume "j < Suc k"
        then show "matchAt proto config ((p # ps) ! j) = None"
          using None k(3) by (cases j) auto
      qed
      with k show ?L by (intro exI [of _ "Suc k"]) simp
    qed
    with None Cons.IH show ?thesis by simp
  next
    case (Some m')
    have "(\<exists>i<length (p # ps). matchAt proto config ((p # ps) ! i) = Some m \<and>
              (\<forall>j<i. matchAt proto config ((p # ps) ! j) = None)) \<longleftrightarrow> m' = m" (is "?L \<longleftrightarrow> _")
    proof
      assume ?L
      then obtain i where i: "matchAt proto config ((p # ps) ! i) = Some m"
        "\<forall>j<i. matchAt proto config ((p # ps) ! j) = None" by blast
      have "i = 0"
      proof (rule ccontr)
        assume "i \<noteq> 0"
        then have "0 < i" by simp
        with i(2) have "matchAt proto config ((p # ps) ! 0) = None" by blast
        with Some show False by simp
      qed
      with i Some show "m' = m" by simp
    next
      assume "m' = m"
      with Some show ?L by (intro exI [of _ 0]) simp
    qed
    with Some show ?thesis by simp
  qed
qed

lemma firstMatch_None_iff:
  "firstMatch proto config ps = None \<longleftrightarrow> (\<forall>p \<in> set ps. matchAt proto config p = None)"
  by (induction ps) (auto split: option.splits)

text \<open>
  Where neither the path nor the style name it is associated with is a name that
  \<open>Object.prototype\<close> answers for, a match is an own association to an own style.
\<close>

lemma matchAt_own_names:
  assumes "inheritedMember proto q = None"
    and "\<forall>sn. map_of (folders config) q = Some sn \<longrightarrow> inheritedMember proto sn = None"
  shows "matchAt proto config q =
           (case map_of (folders config) q of
              None \<Rightarrow> None
            | Some sn \<Rightarrow>
                (case map_of (styles config) sn of
                   None \<Rightarrow> None
                 | Some ts \<Rightarrow> Some \<lparr>style = Own sn, tags = Own ts, matchedPath = q\<rparr>))"
  using assms
  by (auto simp add: matchAt_def hasProperty_def getProperty_def Let_def split: option.splits)

lemma resolveFolder_after_no_match:
  "matchAt proto config (stripTrailingSlashes folderPath) = None \<Longrightarrow>
   resolveFolder proto config folderPath
     = firstMatch proto config (ancestorDirs (stripTrailingSlashes folderPath))"
  by (simp add: resolveFolder_firstMatch)

lemma ancestorDirs_prefix:
  assumes "a \<in> set (ancestorDirs p)"
  shows "\<exists>rest. p = a @ ''/'' @ rest"
proof -
  from assms obtain i where i: "i < length p" "p ! i = CHR ''/''" "a = take i p"
    by (auto simp add: ancestorDirs_def)
  have "p = take i p @ p ! i # drop (Suc i) p"
    using i(1) by (simp add: id_take_nth_drop [symmetric])
  with i show ?thesis by auto
qed

lemma ancestorDirs_deepest_first:
  assumes "i < j" "j < length (ancestorDirs p)"
  shows "length (ancestorDirs p ! j) < length (ancestorDirs p ! i)"
proof -
  define ks where "ks = filter (\<lambda>i. p ! i = CHR ''/'') [0..<length p]"
  have anc: "ancestorDirs p = rev (map (\<lambda>i. take i p) ks)"
    by (simp add: ancestorDirs_def ks_def)
  have len: "length (ancestorDirs p) = length ks" by (simp add: anc)
  have sorted: "sorted_wrt (<) ks"
    unfolding ks_def by (rule sorted_wrt_filter) simp
  have bound: "k < length p" if "k \<in> set ks" for k
    using that by (simp add: ks_def)
  have nth: "ancestorDirs p ! n = take (ks ! (length ks - Suc n)) p" if "n < length ks" for n
    using that by (simp add: anc rev_nth)
  have lens: "length (ancestorDirs p ! n) = ks ! (length ks - Suc n)" if "n < length ks" for n
  proof -
    have "ks ! (length ks - Suc n) \<in> set ks" using that by simp
    from bound [OF this] show ?thesis using that by (simp add: nth)
  qed
  have j: "j < length ks" and i: "i < length ks" using assms len by simp_all
  have "ks ! (length ks - Suc j) < ks ! (length ks - Suc i)"
    using sorted_wrt_nth_less [OF sorted, of "length ks - Suc j" "length ks - Suc i"] assms j i
    by simp
  then show ?thesis by (simp add: lens i j)
qed

lemma stripTrailingSlashes_spec:
  "(\<exists>k. folderPath = stripTrailingSlashes folderPath @ replicate k CHR ''/'') \<and>
   (stripTrailingSlashes folderPath = [] \<or> last (stripTrailingSlashes folderPath) \<noteq> CHR ''/'')"
proof -
  let ?P = "\<lambda>c. c = CHR ''/''"
  let ?r = "rev folderPath"
  have "folderPath = rev (takeWhile ?P ?r @ dropWhile ?P ?r)" by simp
  also have "\<dots> = stripTrailingSlashes folderPath @ rev (takeWhile ?P ?r)"
    by (simp add: stripTrailingSlashes_def del: takeWhile_dropWhile_id)
  finally have a: "folderPath = stripTrailingSlashes folderPath @ rev (takeWhile ?P ?r)" .
  have "\<forall>c \<in> set (rev (takeWhile ?P ?r)). c = CHR ''/''"
    by (auto dest: set_takeWhileD)
  then have "replicate (length (rev (takeWhile ?P ?r))) CHR ''/'' = rev (takeWhile ?P ?r)"
    by (rule replicate_length_same)
  with a have "folderPath = stripTrailingSlashes folderPath
                 @ replicate (length (rev (takeWhile ?P ?r))) CHR ''/''" by simp
  then have ex: "\<exists>k. folderPath = stripTrailingSlashes folderPath @ replicate k CHR ''/''" ..
  have "last (stripTrailingSlashes folderPath) \<noteq> CHR ''/''"
    if "stripTrailingSlashes folderPath \<noteq> []"
  proof -
    from that have ne: "dropWhile ?P ?r \<noteq> []" by (simp add: stripTrailingSlashes_def)
    then have "\<not> ?P (hd (dropWhile ?P ?r))" by (rule hd_dropWhile)
    with ne show ?thesis by (simp add: stripTrailingSlashes_def last_rev)
  qed
  with ex show ?thesis by blast
qed





lemma fold_cascade:
  "map_of (fold (\<lambda>(folder, styleName) fs. if styleName = name then AList.delete folder fs else fs) es fs) k
   = (if (k, name) \<in> set es then None else map_of fs k)"
proof (induction es arbitrary: fs)
  case Nil
  then show ?case by simp
next
  case (Cons e es)
  obtain folder styleName where e: "e = (folder, styleName)" by (cases e)
  show ?case
  proof (cases "styleName = name")
    case True
    then show ?thesis
      using Cons.IH [of "AList.delete folder fs"] by (simp add: e delete_conv')
  next
    case False
    then show ?thesis
      using Cons.IH [of fs] by (simp add: e)
  qed
qed


lemma inheritedStyleStore_simps:
  "styles (getMergedConfig inheritedStyleStore) = [(''S1'', [''warm''])]"
  "folders (getMergedConfig inheritedStyleStore) = [(''/a'', ''S1''), (''/a/d'', ''toString'')]"
  "priorWrites inheritedStyleStore = None"
  by (simp_all add: inheritedStyleStore_def setFolderStyle_def saveStyle_def freshStore_def
        readScope_def readGlobalConfig_def readProjectConfig_def readConfigFile_def
        shareWithDefault_def writeScope_def writeProjectConfig_def assignProperty_def
        assignsOwnEntry_def stripTrailingSlashes_def getMergedConfig_def mergeConfigs_def
        spread_def Let_def)

lemma toString_inherited:
  "inheritedMember None ''toString'' = Some (Function ''toString'')"
  "inheritedMember None ''/a/d/e'' = None"
  "inheritedMember None ''/a/d'' = None"
  "inheritedMember None ''/a'' = None"
  "inheritedMember None ''S1'' = None"
  by (simp_all add: inheritedMember_def Object_prototype_methods_def)

lemma matchAt_inheritedStyleStore:
  "matchAt None (getMergedConfig inheritedStyleStore) ''/a/d/e'' = None"
  "matchAt None (getMergedConfig inheritedStyleStore) ''/a/d''
     = Some \<lparr>style = Own ''toString'', tags = Inherited (Function ''toString''),
             matchedPath = ''/a/d''\<rparr>"
  "matchAt None (getMergedConfig inheritedStyleStore) ''/a''
     = Some \<lparr>style = Own ''S1'', tags = Own [''warm''], matchedPath = ''/a''\<rparr>"
  by (simp_all add: matchAt_def hasProperty_def getProperty_def Let_def
        inheritedStyleStore_simps toString_inherited)

text \<open>
  Claim C4, evaluated where it fails. In a fresh installation the style \<open>S1\<close> is saved and
  the folders \<open>/a\<close> and \<open>/a/d\<close> are associated with \<open>S1\<close> and with \<open>toString\<close>, which is
  no style. Resolving \<open>/a/d/e\<close> has no exact match and walks to the parent \<open>/a/d\<close>,
  where \<open>config.styles["toString"]\<close> finds the function every object inherits and
  \<open>if (tags)\<close> accepts it: the result is \<open>toString\<close> at \<open>/a/d\<close> with a function for
  tags, and not \<open>S1\<close> at \<open>/a\<close>, the nearest ancestor whose association resolves to an
  existing style. (The order of the walk is as claimed, \<open>resolveFolder_firstMatch\<close>; the
  test made at each path is as claimed for names that \<open>Object.prototype\<close> does not answer
  for, \<open>matchAt_own_names\<close>.)
\<close>
theorem folder_resolution_inherited_style:
  "map_of (folders (getMergedConfig inheritedStyleStore)) ''/a/d/e'' = None \<and>
   map_of (folders (getMergedConfig inheritedStyleStore)) ''/a/d'' = Some ''toString'' \<and>
   map_of (styles (getMergedConfig inheritedStyleStore)) ''toString'' = None \<and>
   map_of (folders (getMergedConfig inheritedStyleStore)) ''/a'' = Some ''S1'' \<and>
   map_of (styles (getMergedConfig inheritedStyleStore)) ''S1'' = Some [''warm''] \<and>
   ancestorDirs ''/a/d/e'' = [''/a/d'', ''/a'', []] \<and>
   getStyleForFolder ''/a/d/e'' inheritedStyleStore
     = Some \<lparr>style = Own ''toString'', tags = Inherited (Function ''toString''),
             matchedPath = ''/a/d''\<rparr>"
proof -
  have n: "stripTrailingSlashes ''/a/d/e'' = ''/a/d/e''"
    by (simp add: stripTrailingSlashes_def)
  have a: "ancestorDirs ''/a/d/e'' = [''/a/d'', ''/a'', []]"
    by code_simp
  have "getStyleForFolder ''/a/d/e'' inheritedStyleStore
     = Some \<lparr>style = Own ''toString'', tags = Inherited (Function ''toString''),
             matchedPath = ''/a/d''\<rparr>"
    by (simp add: getStyleForFolder_def resolveFolder_firstMatch n a inheritedStyleStore_simps(3)
          matchAt_inheritedStyleStore)
  with a show ?thesis by (simp add: inheritedStyleStore_simps)
qed

text \<open>
  Claim C10, evaluated where it fails. In the same installation the exact path \<open>/a/d\<close>
  has an association whose style name, \<open>toString\<close>, has no entry in the merged styles.
  The code does not go on to the ancestors, where it would find \<open>S1\<close> at \<open>/a\<close>: the
  lookup of the style finds the inherited function and the exact path is returned as the
  match. (Where the lookup at the exact path finds nothing, the walk follows,
  \<open>resolveFolder_after_no_match\<close>.)
\<close>
theorem dangling_inherited_style:
  "stripTrailingSlashes ''/a/d'' = ''/a/d'' \<and>
   map_of (folders (getMergedConfig inheritedStyleStore)) ''/a/d'' = Some ''toString'' \<and>
   map_of (styles (getMergedConfig inheritedStyleStore)) ''toString'' = None \<and>
   firstMatch None (getMergedConfig inheritedStyleStore) (ancestorDirs ''/a/d'')
     = Some \<lparr>style = Own ''S1'', tags = Own [''warm''], matchedPath = ''/a''\<rparr> \<and>
   getStyleForFolder ''/a/d'' inheritedStyleStore
     = Some \<lparr>style = Own ''toString'', tags = Inherited (Function ''toString''),
             matchedPath = ''/a/d''\<rparr>"
proof -
  have n: "stripTrailingSlashes ''/a/d'' = ''/a/d''"
    by (simp add: stripTrailingSlashes_def)
  have a: "ancestorDirs ''/a/d'' = [''/a'', []]"
    by code_simp
  have "getStyleForFolder ''/a/d'' inheritedStyleStore
     = Some \<lparr>style = Own ''toString'', tags = Inherited (Function ''toString''),
             matchedPath = ''/a/d''\<rparr>"
    by (simp add: getStyleForFolder_def resolveFolder_firstMatch n a inheritedStyleStore_simps(3)
          matchAt_inheritedStyleStore)
  with n show ?thesis
    by (simp add: a inheritedStyleStore_simps matchAt_inheritedStyleStore)
qed







section \<open>Proofs: deleting a style\<close>

lemma readScope_file:
  "scopeFile sc s = Some cfg \<Longrightarrow> readScope sc s = (\<lparr>styles = styles cfg, folders = folders cfg\<rparr>, False)"
  by (auto simp add: scopeFile_def readScope_def readGlobalConfig_def readProjectConfig_def
        readConfigFile_def split: if_splits)

lemma readScope_no_file:
  "scopeFile sc s = None \<Longrightarrow>
   readScope sc s = (\<lparr>styles = defaultStyles s, folders = defaultFolders s\<rparr>, True)"
  by (auto simp add: scopeFile_def readScope_def readGlobalConfig_def readProjectConfig_def
        readConfigFile_def split: if_splits)

lemma deleteStyle_absent:
  "\<not> inStyles s (snd (readScope sc s)) (fst (readScope sc s)) name \<Longrightarrow>
   deleteStyle name sc write_ok s = (Inr False, s)"
  by (cases "readScope sc s") (simp add: deleteStyle_def Let_def)

lemma cascade_distinct:
  assumes "distinct (map fst fs)"
  shows "map_of (fold (\<lambda>(folder, styleName) acc.
                         if styleName = name then AList.delete folder acc else acc) fs fs) k
         = (if map_of fs k = Some name then None else map_of fs k)"
  using assms by (simp add: fold_cascade)

lemma deleteStyle_with_file:
  assumes "scopeFile sc s = Some cfg"
    and "name \<in> fst ` set (styles cfg)"
    and "distinct (map fst (folders cfg))"
  shows "\<exists>s' cfg'. deleteStyle name sc True s = (Inr True, s') \<and>
           scopeFile sc s' = Some cfg' \<and>
           map_of (styles cfg') = (map_of (styles cfg))(name := None) \<and>
           (\<forall>k. map_of (folders cfg') k
                  = (if map_of (folders cfg) k = Some name then None else map_of (folders cfg) k)) \<and>
           scopeFile (otherScope sc) s' = scopeFile (otherScope sc) s \<and>
           readScope (otherScope sc) s' = readScope (otherScope sc) s \<and>
           defaultStyles s' = defaultStyles s \<and> defaultFolders s' = defaultFolders s"
proof -
  let ?folders = "fold (\<lambda>(folder, styleName) acc.
                         if styleName = name then AList.delete folder acc else acc)
                    (folders cfg) (folders cfg)"
  let ?cfg = "\<lparr>styles = AList.delete name (styles cfg), folders = ?folders\<rparr>"
  have d: "deleteStyle name sc True s = (Inr True, writeScope sc ?cfg s)"
    using assms(1,2)
    by (simp add: deleteStyle_def readScope_file Let_def shareWithDefault_def inStyles_def)
  have f: "scopeFile sc (writeScope sc ?cfg s) = Some ?cfg"
    by (simp add: scopeFile_def writeScope_def writeGlobalConfig_def writeProjectConfig_def)
  have o: "scopeFile (otherScope sc) (writeScope sc ?cfg s) = scopeFile (otherScope sc) s"
    by (simp add: scopeFile_def otherScope_def writeScope_def writeGlobalConfig_def
          writeProjectConfig_def)
  have dd: "defaultStyles (writeScope sc ?cfg s) = defaultStyles s"
    "defaultFolders (writeScope sc ?cfg s) = defaultFolders s"
    by (simp_all add: writeScope_def writeGlobalConfig_def writeProjectConfig_def)
  have r: "readScope (otherScope sc) (writeScope sc ?cfg s) = readScope (otherScope sc) s"
    by (cases sc)
       (simp_all add: otherScope_def readScope_def readGlobalConfig_def readProjectConfig_def
          readConfigFile_def writeScope_def writeGlobalConfig_def writeProjectConfig_def
          split: option.splits)
  have st: "map_of (styles ?cfg) = (map_of (styles cfg))(name := None)"
    by (simp add: delete_conv')
  have fo: "\<forall>k. map_of (folders ?cfg) k
                  = (if map_of (folders cfg) k = Some name then None else map_of (folders cfg) k)"
    using cascade_distinct [OF assms(3)] by simp
  from d f o dd r st fo show ?thesis by blast
qed

lemma savedGlobally_simps:
  "defaultStyles savedGlobally = [(''x'', [''t''])]"
  "defaultFolders savedGlobally = []"
  "defaultStylesPrototype savedGlobally = None"
  "priorWrites savedGlobally = None"
  "globalFile savedGlobally = Some \<lparr>styles = [(''x'', [''t''])], folders = []\<rparr>"
  "projectFile savedGlobally (projectRoot savedGlobally) = None"
  by (simp_all add: savedGlobally_def saveStyle_def freshStore_def readScope_def
        readGlobalConfig_def readConfigFile_def shareWithDefault_def writeScope_def
        writeGlobalConfig_def assignProperty_def assignsOwnEntry_def Let_def)

lemma movedProject_simps:
  "defaultStyles movedProject = [(''x'', [''t''])]"
  "defaultFolders movedProject = []"
  "defaultStylesPrototype movedProject = None"
  "priorWrites movedProject = None"
  "globalFile movedProject = None"
  "projectFile movedProject (projectRoot movedProject) = None"
  "projectFile movedProject ''/A'' = Some \<lparr>styles = [(''x'', [''t''])], folders = []\<rparr>"
  by (simp_all add: movedProject_def setProjectRoot_def saveStyle_def freshStore_def readScope_def
        readProjectConfig_def readConfigFile_def shareWithDefault_def writeScope_def
        writeProjectConfig_def assignProperty_def assignsOwnEntry_def Let_def)

text \<open>
  The test \<open>name in config.styles\<close> also answers for the names every object inherits:
  deleting \<open>constructor\<close> in a fresh installation, where no style exists, returns
  \<open>true\<close> and writes a project file.
\<close>

lemma deleteStyle_inherited_name:
  "deleteStyle ''constructor'' Project True (freshStore ''/repo'')
     = (Inr True, writeScope Project \<lparr>styles = [], folders = []\<rparr> (freshStore ''/repo''))"
  by (simp add: deleteStyle_def inStyles_def inheritedMember_def readScope_def
        readProjectConfig_def readConfigFile_def freshStore_def shareWithDefault_def Let_def
        writeScope_def writeProjectConfig_def)

text \<open>
  Claim C8, evaluated where it fails. \<open>readConfigFile\<close> answers a missing file with
  \<open>{ ...DEFAULT_CONFIG }\<close>, whose dictionaries are shared by every such answer. After a
  style \<open>x\<close> was saved to the global scope of a fresh installation, deleting \<open>x\<close> from
  the project scope, which has no file and never held \<open>x\<close>, returns \<open>true\<close> and writes a
  project file. After \<open>x\<close> was saved to a project and the project root moved to a
  directory without a configuration, neither scope has a file, both read \<open>x\<close> from the
  shared default, and deleting \<open>x\<close> from the global scope removes it from what the
  project scope reads. (With a file present in the scope, \<open>deleteStyle_with_file\<close> above
  gives the behaviour the claim describes.)
\<close>
theorem deleteStyle_shared_default:
  "scopeFile Project savedGlobally = None \<and>
   fst (deleteStyle ''x'' Project True savedGlobally) = Inr True \<and>
   scopeFile Project (snd (deleteStyle ''x'' Project True savedGlobally))
     = Some \<lparr>styles = [], folders = []\<rparr> \<and>
   scopeFile Global movedProject = None \<and>
   scopeFile Project movedProject = None \<and>
   map_of (styles (fst (readScope Project movedProject))) ''x'' = Some [''t''] \<and>
   fst (deleteStyle ''x'' Global True movedProject) = Inr True \<and>
   map_of (styles (fst (readScope Project (snd (deleteStyle ''x'' Global True movedProject))))) ''x''
     = None"
  by (simp add: scopeFile_def savedGlobally_simps movedProject_simps deleteStyle_def inStyles_def readScope_def
        readGlobalConfig_def readProjectConfig_def readConfigFile_def shareWithDefault_def
        writeScope_def writeGlobalConfig_def writeProjectConfig_def Let_def)

end
